theory Spec2Isabelle
  imports Complex_Main
begin

section \<open>Python values shared by the widget classes\<close>

text \<open>
  The exceptions the modelled methods can raise. \<open>BearException\<close> and
  \<open>BearLayoutException\<close> are the library's own; the others are raised by the
  Python runtime or by numpy.
\<close>

datatype exc =
    BearException
  | BearLayoutException
  | AttributeError
  | IndexError
  | KeyError
  | TypeError
  | ValueError
  | ZeroDivisionError
  | RecursionError

text \<open>
  A method call either returns a value or raises. The object state is passed through
  next to the outcome, so whatever a method assigned before it raised stays assigned.
\<close>

datatype 'r outcome = Returned 'r | Raised exc

text \<open>
  \<open>BearEvent\<close>: an event type and a value. The value of a \<open>tick\<close> event is the elapsed
  time; Python floats are modelled by exact rationals.
\<close>

datatype event_value = Num rat | Str string | NoValue

record BearEvent =
  event_type :: string
  event_value :: event_value

text \<open>\<open>widget.parent\<close> is \<open>None\<close>, a widget or a \<open>BearTerminal\<close>; objects are named by
  their identity.\<close>

datatype parent_ref = NoParent | WidgetParent nat | TerminalParent nat

type_synonym color = nat
type_synonym chars = "char list list"
type_synonym colors = "color list list"

text \<open>The attributes of the base class \<open>Widget\<close> that the modelled methods read or assign.\<close>

record Widget =
  hidden :: bool
  terminal :: "nat option"
  parent :: parent_ref
  chars :: chars
  colors :: colors

text \<open>\<open>self.parent is self.terminal\<close>: both \<open>None\<close>, or both the same terminal.\<close>

definition parent_is_terminal :: "'a Widget_scheme \<Rightarrow> bool" where
  "parent_is_terminal w =
     (case parent w of
        NoParent \<Rightarrow> terminal w = None
      | WidgetParent p \<Rightarrow> False
      | TerminalParent t \<Rightarrow> terminal w = Some t)"

text \<open>Python list indexing with a non-negative index.\<close>

definition list_get :: "'a list \<Rightarrow> nat \<Rightarrow> 'a outcome" where
  "list_get xs i = (if i < length xs then Returned (xs ! i) else Raised IndexError)"

section \<open>Animation playback\<close>

record Animation =
  frames :: "(chars \<times> colors) list"
  fps :: rat
  frame_time :: rat

text \<open>
  \<open>Animation.__init__\<close>. The helper \<open>shapes_equal\<close> lives in \<open>bear_utilities\<close>, which
  is not part of the sources at hand, so it is a parameter.
\<close>

definition Animation_init ::
  "(chars \<Rightarrow> chars \<Rightarrow> bool) \<Rightarrow> (colors \<Rightarrow> colors \<Rightarrow> bool) \<Rightarrow>
   (chars \<times> colors) list \<Rightarrow> rat \<Rightarrow> Animation outcome" where
  "Animation_init shapes_equal_chars shapes_equal_colors fs r =
     (if \<not> list_all (\<lambda>x. shapes_equal_chars (fst x) (fst (hd fs))) (tl fs)
         \<or> \<not> list_all (\<lambda>x. shapes_equal_colors (snd x) (snd (hd fs))) (tl fs)
      then Raised BearException
      else if r = 0 then Raised ZeroDivisionError
      else Returned \<lparr>frames = fs, fps = r, frame_time = 1 / r\<rparr>)"

record AnimationWidget = Widget +
  running_index :: nat
  have_waited :: rat
  emit_ecs :: bool
  updates :: "(chars \<times> colors) list"

record SimpleAnimationWidget = AnimationWidget +
  animation :: Animation
  is_running :: bool

record MultipleAnimationWidget = AnimationWidget +
  animations :: "string \<rightharpoonup> Animation"
  current_animation :: string
  cycle :: bool
  am_running :: bool

text \<open>The event an animation widget returns after a frame change.\<close>

definition ecs_update :: BearEvent where
  "ecs_update = \<lparr>event_type = ''ecs_update'', event_value = NoValue\<rparr>"

text \<open>
  \<open>self.terminal.update_widget(self)\<close>: the backend is outside the sources; the call is
  recorded in \<open>updates\<close> with the buffer handed over. Without a terminal the attribute
  lookup on \<open>None\<close> raises.
\<close>

definition update_widget ::
  "'a AnimationWidget_scheme \<Rightarrow> BearEvent option outcome \<times> 'a AnimationWidget_scheme" where
  "update_widget w =
     (case terminal w of
        None \<Rightarrow> (Raised AttributeError, w)
      | Some t \<Rightarrow> (Returned None, w\<lparr>updates := updates w @ [(chars w, colors w)]\<rparr>))"


text \<open>The property \<open>MultipleAnimationWidget.animation\<close>: a dictionary lookup.\<close>

definition current_anim :: "MultipleAnimationWidget \<Rightarrow> Animation outcome" where
  "current_anim w =
     (case animations w (current_animation w) of
        None \<Rightarrow> Raised KeyError
      | Some a \<Rightarrow> Returned a)"

text \<open>\<open>MultipleAnimationWidget.on_event\<close>.\<close>

definition MultipleAnimationWidget_on_event ::
  "MultipleAnimationWidget \<Rightarrow> BearEvent \<Rightarrow>
   BearEvent option outcome \<times> MultipleAnimationWidget" where
  "MultipleAnimationWidget_on_event w e =
     (if am_running w then
        (if event_type e = ''tick'' then
           (case event_value e of
              Num v \<Rightarrow>
                (let w1 = w\<lparr>have_waited := have_waited w + v\<rparr> in
                 case current_anim w1 of
                   Raised x \<Rightarrow> (Raised x, w1)
                 | Returned a \<Rightarrow>
                     if have_waited w1 \<ge> frame_time a then
                       (let w2 = w1\<lparr>running_index := running_index w1 + 1\<rparr>;
                            w3 = (if running_index w2 \<ge> length (frames a)
                                  then (if cycle w2 then w2\<lparr>running_index := 0\<rparr>
                                        else w2\<lparr>am_running := False\<rparr>)
                                  else w2)
                        in case list_get (frames a) (running_index w3) of
                             Raised x \<Rightarrow> (Raised x, w3)
                           | Returned f \<Rightarrow>
                               (let w4 = w3\<lparr>chars := fst f, colors := snd f,
                                            have_waited := 0\<rparr>
                                in if emit_ecs w4 then (Returned (Some ecs_update), w4)
                                   else (Returned None, w4)))
                     else (Returned None, w1))
            | _ \<Rightarrow> (Raised TypeError, w))
         else if parent_is_terminal w \<and> event_type e = ''service''
                 \<and> event_value e = Str ''tick_over''
         then update_widget w
         else (Returned None, w))
      else (Returned None, w))"

text \<open>\<open>MultipleAnimationWidget.set_animation\<close>.\<close>

definition set_animation ::
  "MultipleAnimationWidget \<Rightarrow> string \<Rightarrow> bool \<Rightarrow> unit outcome \<times> MultipleAnimationWidget" where
  "set_animation w anim_id cyc =
     (if animations w anim_id = None then (Raised BearException, w)
      else (Returned (),
            w\<lparr>current_animation := anim_id, cycle := cyc, am_running := True\<rparr>))"


fun multiple_run ::
  "MultipleAnimationWidget \<Rightarrow> BearEvent list \<Rightarrow>
   BearEvent option list outcome \<times> MultipleAnimationWidget" where
  "multiple_run w [] = (Returned [], w)"
| "multiple_run w (e # es) =
     (case MultipleAnimationWidget_on_event w e of
        (Raised x, w') \<Rightarrow> (Raised x, w')
      | (Returned r, w') \<Rightarrow>
          (case multiple_run w' es of
             (Raised x, w'') \<Rightarrow> (Raised x, w'')
           | (Returned rs, w'') \<Rightarrow> (Returned (r # rs), w'')))"

definition tick :: "rat \<Rightarrow> BearEvent" where
  "tick v = \<lparr>event_type = ''tick'', event_value = Num v\<rparr>"



text \<open>Three one-cell frames played at ten frames per time unit.\<close>

definition demo_frames :: "(chars \<times> colors) list" where
  "demo_frames = [([''a''], [[1]]), ([''b''], [[2]]), ([''c''], [[3]])]"

definition demo_animation :: Animation where
  "demo_animation = \<lparr>frames = demo_frames, fps = 10, frame_time = 1 / 10\<rparr>"

definition demo_simple :: SimpleAnimationWidget where
  "demo_simple = \<lparr>hidden = False, terminal = None, parent = NoParent,
     chars = [''a''], colors = [[1]], running_index = 0, have_waited = 0, emit_ecs = True,
     updates = [], animation = demo_animation, is_running = True\<rparr>"

definition demo_multiple :: "bool \<Rightarrow> MultipleAnimationWidget" where
  "demo_multiple cyc = \<lparr>hidden = False, terminal = None, parent = NoParent,
     chars = [''a''], colors = [[1]], running_index = 0, have_waited = 0, emit_ecs = True,
     updates = [], animations = [''walk'' \<mapsto> demo_animation], current_animation = ''walk'',
     cycle = cyc, am_running = True\<rparr>"

section \<open>Tile arrays\<close>

text \<open>
  A tile is a character with a foreground and a background colour (the numpy record type
  \<open>render_dt\<close> of the sources). A widget's \<open>tile_array\<close> is a two-dimensional numpy array
  of tiles: its shape and its rows.
\<close>

record tile =
  char :: char
  color :: color
  bkcolor :: color

record ndarray =
  shape0 :: nat
  shape1 :: nat
  cells :: "tile list list"

definition wf_array :: "ndarray \<Rightarrow> bool" where
  "wf_array a =
     (length (cells a) = shape0 a \<and> list_all (\<lambda>r. length r = shape1 a) (cells a))"

text \<open>
  One bound of a Python slice over an axis of length \<open>n\<close>: a negative bound counts from the
  end, and the result is clipped to the axis. \<open>slice_range\<close> gives the first index and the
  number of indices of \<open>start:stop\<close>.
\<close>

definition slice_index :: "nat \<Rightarrow> int \<Rightarrow> nat" where
  "slice_index n i = (if i < 0 then nat (max (i + int n) 0) else nat (min i (int n)))"

definition slice_range :: "nat \<Rightarrow> int \<Rightarrow> int \<Rightarrow> nat \<times> nat" where
  "slice_range n start stop =
     (slice_index n start, slice_index n stop - slice_index n start)"

text \<open>
  \<open>a[y0:y1, x0:x1] = b\<close>. numpy broadcasts \<open>b\<close> to the shape of the slice: along each axis
  \<open>b\<close> has the length of the slice or length 1; otherwise the assignment raises
  \<open>ValueError\<close>. The values of \<open>b\<close> are read before anything is written.
\<close>

definition setitem_slice ::
  "ndarray \<Rightarrow> int \<times> int \<Rightarrow> int \<times> int \<Rightarrow> ndarray \<Rightarrow> ndarray outcome" where
  "setitem_slice a ys xs b =
     (let (r0, h) = slice_range (shape0 a) (fst ys) (snd ys);
          (c0, w) = slice_range (shape1 a) (fst xs) (snd xs)
      in if (shape0 b = h \<or> shape0 b = 1) \<and> (shape1 b = w \<or> shape1 b = 1)
         then Returned (a\<lparr>cells :=
                map (\<lambda>i. map (\<lambda>j.
                       if r0 \<le> i \<and> i < r0 + h \<and> c0 \<le> j \<and> j < c0 + w
                       then cells b ! (if shape0 b = 1 then 0 else i - r0)
                                    ! (if shape1 b = 1 then 0 else j - c0)
                       else cells a ! i ! j) [0..<shape1 a]) [0..<shape0 a]\<rparr>)
         else Raised ValueError)"

text \<open>
  The result of the assignment when \<open>b\<close> lies inside \<open>a\<close> with its top left corner at row
  \<open>r0\<close> and column \<open>c0\<close> (lemma \<open>setitem_slice_fit\<close>).
\<close>

definition pasted :: "ndarray \<Rightarrow> nat \<Rightarrow> nat \<Rightarrow> ndarray \<Rightarrow> ndarray" where
  "pasted a r0 c0 b =
     a\<lparr>cells :=
         map (\<lambda>i. map (\<lambda>j.
                if r0 \<le> i \<and> i < r0 + shape0 b \<and> c0 \<le> j \<and> j < c0 + shape1 b
                then cells b ! (i - r0) ! (j - c0)
                else cells a ! i ! j) [0..<shape1 a]) [0..<shape0 a]\<rparr>"

text \<open>\<open>a[y0:y1, x0:x1]\<close>, as a new array.\<close>

definition getitem_slice :: "ndarray \<Rightarrow> int \<times> int \<Rightarrow> int \<times> int \<Rightarrow> ndarray" where
  "getitem_slice a ys xs =
     (let (r0, h) = slice_range (shape0 a) (fst ys) (snd ys);
          (c0, w) = slice_range (shape1 a) (fst xs) (snd xs)
      in \<lparr>shape0 = h, shape1 = w,
          cells = map (\<lambda>i. map (\<lambda>j. cells a ! (r0 + i) ! (c0 + j)) [0..<w]) [0..<h]\<rparr>)"

section \<open>Widgets and layouts as objects\<close>

text \<open>
  Widgets are objects with identity, and several widgets may hold the same array object.
  The state is a store of objects and a store of arrays, both addressed by identity, the
  list of \<open>update_widget\<close> calls the display backend received, and the next free
  identity.

  An object carries the attributes of \<open>Widget\<close>, \<open>Layout\<close>, \<open>ScrollableLayout\<close> and
  \<open>ScrollableWidget\<close>; \<open>cls\<close> says which class it is (\<open>ObjectCls\<close>: not a Widget at all).
  \<open>tile_array = None\<close> stands for an object without a usable \<open>tile_array\<close> attribute.
  \<open>child_pointers\<close> is the attribute \<open>_child_pointers\<close>, \<open>tile_array_full\<close> is
  \<open>ScrollableWidget._tile_array\<close>; \<open>None\<close> stands for an attribute that was never assigned.
\<close>

datatype cls = WidgetCls | LayoutCls | ScrollableLayoutCls | ScrollableWidgetCls | ObjectCls

definition is_Widget :: "cls \<Rightarrow> bool" where
  "is_Widget c = (c \<noteq> ObjectCls)"

definition is_Layout :: "cls \<Rightarrow> bool" where
  "is_Layout c = (c = LayoutCls \<or> c = ScrollableLayoutCls)"

record pyobj = Widget +
  cls :: cls
  tile_array :: "nat option"
  children :: "nat list"
  child_locations :: "nat \<rightharpoonup> int \<times> int"
  needs_redraw :: bool
  child_pointers :: "nat list list list option"
  view_pos :: "int \<times> int"
  view_size :: "int \<times> int"
  tile_array_full :: "nat option"

record world =
  objs :: "nat \<rightharpoonup> pyobj"
  arrays :: "nat \<rightharpoonup> ndarray"
  pushed :: "(nat \<times> nat \<times> ndarray option) list"
  next_id :: nat

definition upd_obj :: "world \<Rightarrow> nat \<Rightarrow> (pyobj \<Rightarrow> pyobj) \<Rightarrow> world" where
  "upd_obj h i f =
     (case objs h i of None \<Rightarrow> h | Some ob \<Rightarrow> h\<lparr>objs := (objs h)(i \<mapsto> f ob)\<rparr>)"

definition new_object :: "world \<Rightarrow> pyobj \<Rightarrow> nat \<times> world" where
  "new_object h ob =
     (next_id h, h\<lparr>objs := (objs h)(next_id h \<mapsto> ob), next_id := next_id h + 1\<rparr>)"

definition new_array :: "world \<Rightarrow> ndarray \<Rightarrow> nat \<times> world" where
  "new_array h a =
     (next_id h, h\<lparr>arrays := (arrays h)(next_id h \<mapsto> a), next_id := next_id h + 1\<rparr>)"

text \<open>Writing into an array object in place: every holder of the array sees the change.\<close>

definition set_array :: "world \<Rightarrow> nat \<Rightarrow> ndarray \<Rightarrow> world" where
  "set_array h addr a = h\<lparr>arrays := (arrays h)(addr \<mapsto> a)\<rparr>"

text \<open>The array an object's \<open>tile_array\<close> refers to.\<close>

definition array_of :: "world \<Rightarrow> pyobj \<Rightarrow> ndarray option" where
  "array_of h ob = (case tile_array ob of None \<Rightarrow> None | Some a \<Rightarrow> arrays h a)"

text \<open>
  \<open>Widget.__init__(tile_array, terminal=...)\<close>: the attributes of a fresh object of class
  \<open>c\<close>. The attributes of the subclasses start out empty.
\<close>

definition Widget_init :: "cls \<Rightarrow> nat option \<Rightarrow> nat option \<Rightarrow> pyobj" where
  "Widget_init c ta t =
     \<lparr>hidden = False, terminal = t, parent = NoParent, chars = [], colors = [],
      cls = c, tile_array = ta, children = [], child_locations = Map.empty,
      needs_redraw = False, child_pointers = None, view_pos = (0, 0), view_size = (0, 0),
      tile_array_full = None\<rparr>"

text \<open>
  The setter of \<open>terminal\<close>. \<open>Widget\<close> stores the value; \<open>Layout\<close> stores it and assigns it
  to every child in turn, which runs the child's own setter. The first argument bounds the
  depth of these nested calls, as the interpreter's recursion limit does; when it is used
  up the call raises, and what was assigned so far stays assigned. (A reference always
  names an object; for an identity without an object the model changes nothing.)
\<close>

fun set_terminal :: "nat \<Rightarrow> world \<Rightarrow> nat \<Rightarrow> nat option \<Rightarrow> unit outcome \<times> world"
  and set_terminal_children ::
    "nat \<Rightarrow> world \<Rightarrow> nat list \<Rightarrow> nat option \<Rightarrow> unit outcome \<times> world" where
  "set_terminal 0 h w v = (Raised RecursionError, h)"
| "set_terminal (Suc n) h w v =
     (case objs h w of
        None \<Rightarrow> (Returned (), h)
      | Some ob \<Rightarrow>
          (let h1 = h\<lparr>objs := (objs h)(w \<mapsto> ob\<lparr>terminal := v\<rparr>)\<rparr>
           in if is_Layout (cls ob) then set_terminal_children n h1 (children ob) v
              else (Returned (), h1)))"
| "set_terminal_children n h [] v = (Returned (), h)"
| "set_terminal_children n h (c # cs) v =
     (case set_terminal n h c v of
        (Raised x, h') \<Rightarrow> (Raised x, h')
      | (Returned u, h') \<Rightarrow> set_terminal_children n h' cs v)"

text \<open>\<open>Layout.add_child\<close>. The shapes are read first, then the five checks run in the
  order of the source, then the assignments.\<close>

definition add_child ::
  "nat \<Rightarrow> world \<Rightarrow> nat \<Rightarrow> nat \<Rightarrow> int \<times> int \<Rightarrow> unit outcome \<times> world" where
  "add_child fuel h self child pos =
     (case objs h self of
        None \<Rightarrow> (Raised AttributeError, h)
      | Some so \<Rightarrow>
     (case objs h child of
        None \<Rightarrow> (Raised AttributeError, h)
      | Some co \<Rightarrow>
     (case array_of h so of
        None \<Rightarrow> (Raised AttributeError, h)
      | Some sa \<Rightarrow>
     (case array_of h co of
        None \<Rightarrow> (Raised AttributeError, h)
      | Some ca \<Rightarrow>
     (let layout_y = int (shape0 sa); layout_x = int (shape1 sa);
          child_y = int (shape0 ca); child_x = int (shape1 ca);
          pos_y = fst pos; pos_x = snd pos
      in if \<not> is_Widget (cls co) then (Raised BearLayoutException, h)
         else if child \<in> set (children so) then (Raised BearLayoutException, h)
         else if layout_y < child_y \<or> layout_x < child_x
           then (Raised BearLayoutException, h)
         else if child_y + pos_y > layout_y \<or> child_x + pos_x > layout_x
           then (Raised BearLayoutException, h)
         else if child = self then (Raised BearLayoutException, h)
         else
           (let h1 = upd_obj h self (\<lambda>ob. ob\<lparr>children := children ob @ [child]\<rparr>);
                h2 = upd_obj h1 self
                       (\<lambda>ob. ob\<lparr>child_locations := (child_locations ob)(child \<mapsto> pos)\<rparr>)
            in case set_terminal fuel h2 child (terminal so) of
                 (Raised x, h3) \<Rightarrow> (Raised x, h3)
               | (Returned u, h3) \<Rightarrow>
                   (let h4 = upd_obj h3 child (\<lambda>ob. ob\<lparr>parent := WidgetParent self\<rparr>);
                        h5 = upd_obj h4 self (\<lambda>ob. ob\<lparr>needs_redraw := True\<rparr>)
                    in (Returned (), h5))))))))"

text \<open>
  The body of the loop of \<open>Layout._rebuild_self\<close> for one child: a child that is not
  hidden is assigned into the slice of the layout's own array that starts at its recorded
  position and has its shape.
\<close>

definition paste_child :: "world \<Rightarrow> nat \<Rightarrow> nat \<Rightarrow> unit outcome \<times> world" where
  "paste_child h self child =
     (case objs h self of
        None \<Rightarrow> (Raised AttributeError, h)
      | Some so \<Rightarrow>
     (case objs h child of
        None \<Rightarrow> (Raised AttributeError, h)
      | Some co \<Rightarrow>
          if hidden co then (Returned (), h)
          else
     (case array_of h co of
        None \<Rightarrow> (Raised AttributeError, h)
      | Some ca \<Rightarrow>
     (case child_locations so child of
        None \<Rightarrow> (Raised KeyError, h)
      | Some (pos_y, pos_x) \<Rightarrow>
     (case tile_array so of
        None \<Rightarrow> (Raised TypeError, h)
      | Some addr \<Rightarrow>
     (case arrays h addr of
        None \<Rightarrow> (Raised TypeError, h)
      | Some sa \<Rightarrow>
     (case setitem_slice sa (pos_y, pos_y + int (shape0 ca))
                            (pos_x, pos_x + int (shape1 ca)) ca of
        Raised x \<Rightarrow> (Raised x, h)
      | Returned sa' \<Rightarrow> (Returned (), set_array h addr sa'))))))))"

fun paste_children :: "world \<Rightarrow> nat \<Rightarrow> nat list \<Rightarrow> unit outcome \<times> world" where
  "paste_children h self [] = (Returned (), h)"
| "paste_children h self (c # cs) =
     (case paste_child h self c of
        (Raised x, h') \<Rightarrow> (Raised x, h')
      | (Returned u, h') \<Rightarrow> paste_children h' self cs)"

text \<open>\<open>Layout._rebuild_self\<close>: the children in list order, the oldest first.\<close>

definition Layout_rebuild_self :: "world \<Rightarrow> nat \<Rightarrow> unit outcome \<times> world" where
  "Layout_rebuild_self h self =
     (case objs h self of
        None \<Rightarrow> (Raised AttributeError, h)
      | Some so \<Rightarrow> paste_children h self (children so))"

text \<open>
  \<open>ScrollableLayout._rebuild_self\<close>, which overrides the method of \<open>Layout\<close>: it slices the
  view out of \<open>tile_array\<close> and stores its characters and colours; it does not visit the
  children.
\<close>

definition ScrollableLayout_rebuild_self :: "world \<Rightarrow> nat \<Rightarrow> unit outcome \<times> world" where
  "ScrollableLayout_rebuild_self h self =
     (case objs h self of
        None \<Rightarrow> (Raised AttributeError, h)
      | Some so \<Rightarrow>
     (case array_of h so of
        None \<Rightarrow> (Raised TypeError, h)
      | Some sa \<Rightarrow>
          (let view = getitem_slice sa
                 (snd (view_pos so), snd (view_pos so) + snd (view_size so))
                 (fst (view_pos so), fst (view_pos so) + fst (view_size so))
           in (Returned (),
               upd_obj h self
                 (\<lambda>ob. ob\<lparr>chars := map (map char) (cells view),
                          colors := map (map color) (cells view)\<rparr>)))))"





text \<open>
  \<open>Layout.__init__(tile_array, terminal=...)\<close> for an object of class \<open>c\<close> (\<open>Layout\<close> or a
  subclass): the background child is a new \<open>Widget\<close> built on the very array the layout was
  given, added at \<open>(0, 0)\<close>.
\<close>

definition Layout_init ::
  "nat \<Rightarrow> world \<Rightarrow> cls \<Rightarrow> nat \<Rightarrow> nat option \<Rightarrow> nat outcome \<times> world" where
  "Layout_init fuel h c arr t =
     (let (self, h1) = new_object h (Widget_init c (Some arr) t)
      in case arrays h1 arr of
           None \<Rightarrow> (Raised AttributeError, h1)
         | Some a \<Rightarrow>
             (let (w, h2) = new_object h1 (Widget_init WidgetCls (Some arr) None)
              in case add_child fuel h2 self w (0, 0) of
                   (Raised x, h3) \<Rightarrow> (Raised x, h3)
                 | (Returned u, h3) \<Rightarrow>
                     (Returned self,
                      upd_obj h3 self (\<lambda>ob. ob\<lparr>needs_redraw := False\<rparr>))))"

section \<open>Scrollable viewports\<close>

text \<open>\<open>ScrollableLayout.__init__(tile_array, view_pos, view_size)\<close>.\<close>

definition ScrollableLayout_init ::
  "nat \<Rightarrow> world \<Rightarrow> nat \<Rightarrow> int \<times> int \<Rightarrow> int \<times> int \<Rightarrow> nat outcome \<times> world" where
  "ScrollableLayout_init fuel h arr vpos vsize =
     (case Layout_init fuel h ScrollableLayoutCls arr None of
        (Raised x, h1) \<Rightarrow> (Raised x, h1)
      | (Returned self, h1) \<Rightarrow>
     (case arrays h1 arr of
        None \<Rightarrow> (Raised AttributeError, h1)
      | Some a \<Rightarrow>
          (let width = int (shape1 a); height = int (shape0 a)
           in if \<not> (0 \<le> fst vpos \<and> fst vpos \<le> width - fst vsize)
                 \<or> \<not> (0 \<le> snd vpos \<and> snd vpos \<le> height - snd vsize)
              then (Raised BearLayoutException, h1)
              else if \<not> (0 < fst vsize \<and> fst vsize \<le> int (shape0 a))
                      \<or> \<not> (0 < snd vsize \<and> snd vsize \<le> int (shape1 a))
              then (Raised BearLayoutException, h1)
              else
                (let h2 = upd_obj h1 self (\<lambda>ob. ob\<lparr>view_pos := vpos, view_size := vsize\<rparr>)
                 in case ScrollableLayout_rebuild_self h2 self of
                      (Raised x, h3) \<Rightarrow> (Raised x, h3)
                    | (Returned u, h3) \<Rightarrow> (Returned self, h3)))))"

text \<open>
  \<open>ScrollableWidget.__init__(tile_array, view_pos, view_size)\<close>. The view is a slice of
  the full array; it is stored as an array of its own (that numpy lets the two share
  memory is not modelled).
\<close>

definition ScrollableWidget_init ::
  "world \<Rightarrow> nat \<Rightarrow> int \<times> int \<Rightarrow> int \<times> int \<Rightarrow> nat outcome \<times> world" where
  "ScrollableWidget_init h arr vpos vsize =
     (case arrays h arr of
        None \<Rightarrow> (Raised AttributeError, h)
      | Some a \<Rightarrow>
          if \<not> (0 \<le> fst vpos \<and> fst vpos \<le> int (shape0 a) - fst vsize)
             \<or> \<not> (0 \<le> snd vpos \<and> snd vpos \<le> int (shape1 a) - snd vsize)
          then (Raised BearLayoutException, h)
          else if \<not> (0 < fst vsize \<and> fst vsize \<le> int (shape0 a))
                  \<or> \<not> (0 < snd vsize \<and> snd vsize \<le> int (shape1 a))
          then (Raised BearLayoutException, h)
          else
            (let (v, h1) = new_array h
                   (getitem_slice a (fst vpos, fst vpos + fst vsize)
                                    (snd vpos, snd vpos + snd vsize));
                 (self, h2) = new_object h1
                   ((Widget_init ScrollableWidgetCls (Some v) None)
                      \<lparr>view_pos := vpos, view_size := vsize, tile_array_full := Some arr\<rparr>)
             in (Returned self, h2)))"

text \<open>
  \<open>ScrollableLayout.scroll_to(pos)\<close>. \<open>pos\<close> is a sequence of integers. Each chained
  comparison \<open>0 <= p <= len(...) - v\<close> stops at its first false link, so
  \<open>_child_pointers\<close> is only read once \<open>0 <= p\<close> holds.
\<close>

definition scroll_to :: "world \<Rightarrow> nat \<Rightarrow> int list \<Rightarrow> unit outcome \<times> world" where
  "scroll_to h self pos =
     (case objs h self of
        None \<Rightarrow> (Raised AttributeError, h)
      | Some so \<Rightarrow>
          if \<not> (length pos = 2) then (Raised BearLayoutException, h)
          else if \<not> (0 \<le> pos ! 0) then (Raised BearLayoutException, h)
          else
     (case child_pointers so of
        None \<Rightarrow> (Raised AttributeError, h)
      | Some cp \<Rightarrow>
     (case cp of
        [] \<Rightarrow> (Raised IndexError, h)
      | row # rest \<Rightarrow>
          if \<not> (pos ! 0 \<le> int (length row) - fst (view_size so))
            then (Raised BearLayoutException, h)
          else if \<not> (0 \<le> pos ! 1 \<and> pos ! 1 \<le> int (length cp) - snd (view_size so))
            then (Raised BearLayoutException, h)
          else (Returned (), upd_obj h self (\<lambda>ob. ob\<lparr>view_pos := (pos ! 0, pos ! 1)\<rparr>)))))"

text \<open>\<open>ScrollableLayout.scroll_by(shift)\<close>.\<close>

definition scroll_by :: "world \<Rightarrow> nat \<Rightarrow> int \<times> int \<Rightarrow> unit outcome \<times> world" where
  "scroll_by h self shift =
     (case objs h self of
        None \<Rightarrow> (Raised AttributeError, h)
      | Some so \<Rightarrow>
          scroll_to h self [fst (view_pos so) + fst shift, snd (view_pos so) + snd shift])"

section \<open>Well-formed layouts\<close>

text \<open>
  The invariant of a layout: its array and the arrays of its children are rectangular, and
  every child has a recorded position at which it lies inside the layout's array.
\<close>

definition child_ok :: "world \<Rightarrow> pyobj \<Rightarrow> ndarray \<Rightarrow> nat \<Rightarrow> bool" where
  "child_ok h so sa c =
     (case objs h c of
        None \<Rightarrow> False
      | Some co \<Rightarrow>
     (case array_of h co of
        None \<Rightarrow> False
      | Some ca \<Rightarrow>
     (case child_locations so c of
        None \<Rightarrow> False
      | Some (pos_y, pos_x) \<Rightarrow>
          wf_array ca \<and> 0 \<le> pos_y \<and> 0 \<le> pos_x
          \<and> pos_y + int (shape0 ca) \<le> int (shape0 sa)
          \<and> pos_x + int (shape1 ca) \<le> int (shape1 sa))))"

definition layout_ok :: "world \<Rightarrow> nat \<Rightarrow> bool" where
  "layout_ok h self =
     (case objs h self of
        None \<Rightarrow> False
      | Some so \<Rightarrow>
     (case array_of h so of
        None \<Rightarrow> False
      | Some sa \<Rightarrow> wf_array sa \<and> list_all (child_ok h so sa) (children so)))"

text \<open>Child \<open>c\<close> is shown and its rectangle contains the cell \<open>(y, x)\<close> of the layout.\<close>

definition covers :: "world \<Rightarrow> pyobj \<Rightarrow> nat \<Rightarrow> nat \<Rightarrow> nat \<Rightarrow> bool" where
  "covers h so c y x =
     (case objs h c of
        None \<Rightarrow> False
      | Some co \<Rightarrow>
     (case array_of h co of
        None \<Rightarrow> False
      | Some ca \<Rightarrow>
     (case child_locations so c of
        None \<Rightarrow> False
      | Some (pos_y, pos_x) \<Rightarrow>
          \<not> hidden co
          \<and> pos_y \<le> int y \<and> int y < pos_y + int (shape0 ca)
          \<and> pos_x \<le> int x \<and> int x < pos_x + int (shape1 ca))))"

text \<open>The tile that widget \<open>w\<close> shows at row \<open>y\<close> and column \<open>x\<close> of its array.\<close>

definition cell_at :: "world \<Rightarrow> nat \<Rightarrow> nat \<Rightarrow> nat \<Rightarrow> tile option" where
  "cell_at h w y x =
     (case objs h w of
        None \<Rightarrow> None
      | Some ob \<Rightarrow>
     (case array_of h ob of
        None \<Rightarrow> None
      | Some a \<Rightarrow> if y < shape0 a \<and> x < shape1 a then Some (cells a ! y ! x) else None))"

section \<open>Example states\<close>

text \<open>The interpreter's default recursion limit.\<close>

definition recursion_limit :: nat where
  "recursion_limit = 1000"

text \<open>A one-cell array showing the character \<open>ch\<close>.\<close>

definition tile_of :: "char \<Rightarrow> tile" where
  "tile_of ch = \<lparr>char = ch, color = 0, bkcolor = 0\<rparr>"

definition cell_array :: "char \<Rightarrow> ndarray" where
  "cell_array ch = \<lparr>shape0 = 1, shape1 = 1, cells = [[tile_of ch]]\<rparr>"

text \<open>
  Three plain widgets 1, 2 and 3 on arrays of their own (11, 12, 13, showing \<open>a\<close>, \<open>b\<close>,
  \<open>c\<close>), and an array 10 showing \<open>.\<close> for a layout still to be made.
\<close>

definition demo_base :: world where
  "demo_base =
     \<lparr>objs = [1 \<mapsto> Widget_init WidgetCls (Some 11) None,
               2 \<mapsto> Widget_init WidgetCls (Some 12) None,
               3 \<mapsto> Widget_init WidgetCls (Some 13) None],
      arrays = [10 \<mapsto> cell_array CHR ''.'', 11 \<mapsto> cell_array CHR ''a'',
                12 \<mapsto> cell_array CHR ''b'', 13 \<mapsto> cell_array CHR ''c''],
      pushed = [], next_id = 20\<rparr>"

text \<open>\<open>Layout(array 10)\<close>: the layout is object 20, its background child object 21.\<close>

definition demo_layout :: world where
  "demo_layout = snd (Layout_init recursion_limit demo_base LayoutCls 10 None)"

text \<open>The layout after \<open>add_child\<close> of widget 1, and after \<open>add_child\<close> of widgets 1, 2
  and 3 in this order, all at \<open>(0, 0)\<close>.\<close>

definition demo_one_child :: world where
  "demo_one_child = snd (add_child recursion_limit demo_layout 20 1 (0, 0))"

text \<open>Object 20 as a layout on array 10, and a plain widget on array \<open>a\<close> that is a child
  of object 20.\<close>

definition layout20 :: "nat list \<Rightarrow> (nat \<rightharpoonup> int \<times> int) \<Rightarrow> bool \<Rightarrow> pyobj" where
  "layout20 cs locs nr =
     (Widget_init LayoutCls (Some 10) None)
       \<lparr>children := cs, child_locations := locs, needs_redraw := nr\<rparr>"

definition child_of20 :: "nat \<Rightarrow> pyobj" where
  "child_of20 a = (Widget_init WidgetCls (Some a) None)\<lparr>parent := WidgetParent 20\<rparr>"

definition demo_three_children :: world where
  "demo_three_children =
     snd (add_child recursion_limit
            (snd (add_child recursion_limit demo_one_child 20 2 (0, 0))) 20 3 (0, 0))"



text \<open>What the setter of \<open>terminal\<close> can change: the \<open>terminal\<close> attribute of objects, to the
  value being set.\<close>

definition terminal_only :: "nat option \<Rightarrow> world \<Rightarrow> world \<Rightarrow> bool" where
  "terminal_only v h h' =
     (arrays h' = arrays h \<and> pushed h' = pushed h \<and> next_id h' = next_id h
      \<and> (\<forall>i. objs h' i = objs h i
              \<or> (\<exists>ob. objs h i = Some ob \<and> objs h' i = Some (ob\<lparr>terminal := v\<rparr>))))"

section \<open>Switching widget\<close>

record SwitchingWidget = Widget +
  images :: "string \<rightharpoonup> chars \<times> colors"
  current_image :: string

text \<open>
  \<open>SwitchingWidget.switch_to_image\<close>. The two lookups \<open>self.images[image_id]\<close> and the three
  assignments happen one after the other inside the \<open>try\<close>; a \<open>KeyError\<close> of either lookup
  is turned into \<open>BearException\<close>.
\<close>

definition switch_to_image ::
  "SwitchingWidget \<Rightarrow> string \<Rightarrow> unit outcome \<times> SwitchingWidget" where
  "switch_to_image w image_id =
     (if image_id \<noteq> current_image w then
        (case images w image_id of
           None \<Rightarrow> (Raised BearException, w)
         | Some im \<Rightarrow>
             (let w1 = w\<lparr>chars := fst im\<rparr>
              in case images w1 image_id of
                   None \<Rightarrow> (Raised BearException, w1)
                 | Some im' \<Rightarrow>
                     (let w2 = w1\<lparr>colors := snd im'\<rparr>
                      in (Returned (), w2\<lparr>current_image := image_id\<rparr>))))
      else (Returned (), w))"

text \<open>A widget with the two images \<open>on\<close> and \<open>off\<close>, showing \<open>off\<close>.\<close>

definition demo_switching :: SwitchingWidget where
  "demo_switching =
     \<lparr>hidden = False, terminal = None, parent = NoParent, chars = [''-''], colors = [[0]],
      images = [''on'' \<mapsto> ([''+''], [[1]]), ''off'' \<mapsto> ([''-''], [[0]])],
      current_image = ''off''\<rparr>"

section \<open>More example states\<close>

text \<open>Next to the layout 20, an object 4 that is not a Widget and has no \<open>tile_array\<close>.\<close>

definition demo_with_object :: world where
  "demo_with_object =
     demo_layout\<lparr>objs := (objs demo_layout)(4 \<mapsto> Widget_init ObjectCls None None)\<rparr>"

text \<open>
  A second layout (object 22, background child 23) on array 11, added to layout 20 as a
  child at \<open>(0, 0)\<close>.
\<close>

definition demo_nested :: world where
  "demo_nested =
     snd (add_child recursion_limit
            (snd (Layout_init recursion_limit demo_layout LayoutCls 11 None)) 20 22 (0, 0))"

text \<open>An array of \<open>h\<close> rows and \<open>w\<close> columns of blanks.\<close>

definition blank_array :: "nat \<Rightarrow> nat \<Rightarrow> ndarray" where
  "blank_array h w =
     \<lparr>shape0 = h, shape1 = w, cells = replicate h (replicate w (tile_of CHR '' ''))\<rparr>"

text \<open>A world holding one array, number 10, and no objects yet.\<close>

definition one_array :: "ndarray \<Rightarrow> world" where
  "one_array a = \<lparr>objs = Map.empty, arrays = [10 \<mapsto> a], pushed = [], next_id = 20\<rparr>"

text \<open>\<open>ScrollableLayout\<close> over a backing array of 20 by 20 with a view of 5 by 5 at
  \<open>(0, 0)\<close>: object 20.\<close>

definition demo_scrollable_init :: "nat outcome \<times> world" where
  "demo_scrollable_init =
     ScrollableLayout_init recursion_limit (one_array (blank_array 20 20)) 10 (0, 0) (5, 5)"

definition demo_scrollable :: world where
  "demo_scrollable = snd demo_scrollable_init"

text \<open>\<open>ScrollableLayout\<close> over a backing array of 1 row and 2 columns, with a view 2 wide
  and 1 high at \<open>(0, 0)\<close>.\<close>

definition demo_wide_init :: "nat outcome \<times> world" where
  "demo_wide_init =
     ScrollableLayout_init recursion_limit (one_array (blank_array 1 2)) 10 (0, 0) (2, 1)"

text \<open>
  The condition of the specification for a viewport, componentwise: \<open>size0\<close> and \<open>size1\<close> are
  the extents of the backing buffer along the axes of the first and of the second component
  of the view position and view size.
\<close>

definition spec_viewport_valid :: "int \<Rightarrow> int \<Rightarrow> int \<times> int \<Rightarrow> int \<times> int \<Rightarrow> bool" where
  "spec_viewport_valid size0 size1 vpos vsize =
     (0 \<le> fst vpos \<and> fst vpos \<le> size0 - fst vsize
      \<and> 0 \<le> snd vpos \<and> snd vpos \<le> size1 - snd vsize
      \<and> 0 < fst vsize \<and> fst vsize \<le> size0
      \<and> 0 < snd vsize \<and> snd vsize \<le> size1)"

text \<open>The condition \<open>ScrollableLayout.__init__\<close> tests, on the shape of the array.\<close>

definition code_viewport_valid :: "ndarray \<Rightarrow> int \<times> int \<Rightarrow> int \<times> int \<Rightarrow> bool" where
  "code_viewport_valid a vpos vsize =
     (0 \<le> fst vpos \<and> fst vpos \<le> int (shape1 a) - fst vsize
      \<and> 0 \<le> snd vpos \<and> snd vpos \<le> int (shape0 a) - snd vsize
      \<and> 0 < fst vsize \<and> fst vsize \<le> int (shape0 a)
      \<and> 0 < snd vsize \<and> snd vsize \<le> int (shape1 a))"

text \<open>What \<open>Layout.__init__\<close> builds: the layout as object \<open>next_id\<close>, its background child
  as the object after it.\<close>

definition fresh_layout :: "world \<Rightarrow> cls \<Rightarrow> nat \<Rightarrow> nat option \<Rightarrow> world" where
  "fresh_layout h c arr t =
     h\<lparr>objs := (objs h)
          (next_id h + 1 \<mapsto> (Widget_init WidgetCls (Some arr) t)
                              \<lparr>parent := WidgetParent (next_id h)\<rparr>,
           next_id h \<mapsto> (Widget_init c (Some arr) t)
                          \<lparr>children := [next_id h + 1],
                             child_locations := [next_id h + 1 \<mapsto> (0, 0)]\<rparr>),
        next_id := next_id h + 2\<rparr>"

section \<open>Menu navigation\<close>

text \<open>
  The children of a \<open>MenuWidget\<close>, with what its event handler uses of them: a \<open>MenuItem\<close>
  is highlighted or not and has an action, given by the events the action returns; any
  other child (the background \<open>Widget\<close>, the header \<open>Label\<close>) has neither \<open>highlight\<close> nor
  \<open>activate\<close>. All of them inherit the empty \<open>Widget.on_event\<close>.
\<close>

datatype menu_child = MenuItem (highlighted: bool) (action: "BearEvent list") | OtherChild

text \<open>
  The state of the menu that the handler reads and assigns. \<open>menu_children\<close> is
  \<open>self.children\<close>, \<open>current_highlight\<close> is \<open>self._current_highlight\<close>, \<open>menu_terminal\<close> and
  \<open>menu_needs_redraw\<close> are the attributes \<open>terminal\<close> and \<open>needs_redraw\<close> of the layout the menu
  is. The tile buffers are not part of this state.
\<close>

record MenuWidget =
  menu_children :: "menu_child list"
  current_highlight :: int
  current_delay :: rat
  input_delay :: rat
  switch_sound :: "string option"
  activation_sound :: "string option"
  menu_terminal :: "nat option"
  menu_needs_redraw :: bool

text \<open>Python list indexing with an integer: a negative index counts from the end.\<close>

definition py_index :: "nat \<Rightarrow> int \<Rightarrow> nat option" where
  "py_index n i =
     (let j = (if i < 0 then i + int n else i)
      in if 0 \<le> j \<and> j < int n then Some (nat j) else None)"

text \<open>\<open>self.children[i].highlight()\<close> and \<open>self.children[i].unhighlight()\<close>.\<close>

definition set_highlighted :: "MenuWidget \<Rightarrow> int \<Rightarrow> bool \<Rightarrow> unit outcome \<times> MenuWidget" where
  "set_highlighted m i b =
     (case py_index (length (menu_children m)) i of
        None \<Rightarrow> (Raised IndexError, m)
      | Some k \<Rightarrow>
          (case menu_children m ! k of
             OtherChild \<Rightarrow> (Raised AttributeError, m)
           | MenuItem hl act \<Rightarrow>
               (Returned (), m\<lparr>menu_children := (menu_children m)[k := MenuItem b act]\<rparr>)))"

text \<open>\<open>self.children[i].activate()\<close>: the events the item's action returns.\<close>

definition activate :: "MenuWidget \<Rightarrow> int \<Rightarrow> BearEvent list outcome" where
  "activate m i =
     (case py_index (length (menu_children m)) i of
        None \<Rightarrow> Raised IndexError
      | Some k \<Rightarrow>
          (case menu_children m ! k of
             OtherChild \<Rightarrow> Raised AttributeError
           | MenuItem hl act \<Rightarrow> Returned act))"

text \<open>The setter of \<open>current_highlight\<close>.\<close>

definition set_current_highlight :: "MenuWidget \<Rightarrow> int \<Rightarrow> unit outcome \<times> MenuWidget" where
  "set_current_highlight m v =
     (if \<not> (1 \<le> v \<and> v \<le> int (length (menu_children m)) - 1) then (Raised ValueError, m)
      else
        (case set_highlighted m (current_highlight m) False of
           (Raised x, m1) \<Rightarrow> (Raised x, m1)
         | (Returned u, m1) \<Rightarrow>
             (let m2 = m1\<lparr>current_highlight := v\<rparr>
              in case set_highlighted m2 (current_highlight m2) True of
                   (Raised x, m3) \<Rightarrow> (Raised x, m3)
                 | (Returned u, m3) \<Rightarrow> (Returned (), m3\<lparr>menu_needs_redraw := True\<rparr>))))"

definition play_sound :: "string \<Rightarrow> BearEvent" where
  "play_sound s = \<lparr>event_type = ''play_sound'', event_value = Str s\<rparr>"

text \<open>The events appended for a sound: none when the sound is \<open>None\<close> or empty, or when the
  flag is not set.\<close>

definition sound_events :: "string option \<Rightarrow> bool \<Rightarrow> BearEvent list" where
  "sound_events snd_id flag =
     (case snd_id of
        None \<Rightarrow> []
      | Some s \<Rightarrow> if s \<noteq> [] \<and> flag then [play_sound s] else [])"

text \<open>
  The first part of \<open>MenuWidget.on_event\<close>, up to the computation of \<open>r\<close>, \<open>have_switched\<close> and
  \<open>have_activated\<close>. The answers of the display backend to a pointer move are outside the
  sources; \<open>pointer_inside\<close> says whether the pointer is inside the menu's rectangle. Inside
  it the handler calls \<open>get_child_on_pos\<close>, which reads the attribute \<open>_child_pointers\<close> that
  no constructor assigns.
\<close>

definition menu_dispatch ::
  "MenuWidget \<Rightarrow> BearEvent \<Rightarrow> bool \<Rightarrow>
   (BearEvent list \<times> bool \<times> bool) outcome \<times> MenuWidget" where
  "menu_dispatch m e pointer_inside =
     (if event_type e = ''tick'' \<and> current_delay m \<le> input_delay m then
        (case event_value e of
           Num v \<Rightarrow> (Returned ([], False, False), m\<lparr>current_delay := current_delay m + v\<rparr>)
         | _ \<Rightarrow> (Raised TypeError, m))
      else if event_type e = ''key_down'' \<and> current_delay m \<ge> input_delay m then
        (let m1 = m\<lparr>current_delay := 0\<rparr> in
         if event_value e = Str ''TK_SPACE'' \<or> event_value e = Str ''TK_ENTER'' then
           (case activate m1 (current_highlight m1) of
              Raised x \<Rightarrow> (Raised x, m1)
            | Returned r \<Rightarrow> (Returned (r, False, True), m1))
         else if (event_value e = Str ''TK_UP'' \<or> event_value e = Str ''TK_W'')
                 \<and> current_highlight m1 > 1 then
           (case set_current_highlight m1 (current_highlight m1 - 1) of
              (Raised x, m2) \<Rightarrow> (Raised x, m2)
            | (Returned u, m2) \<Rightarrow> (Returned ([], True, False), m2))
         else if (event_value e = Str ''TK_DOWN'' \<or> event_value e = Str ''TK_S'')
                 \<and> current_highlight m1 < int (length (menu_children m1)) - 2 then
           (case set_current_highlight m1 (current_highlight m1 + 1) of
              (Raised x, m2) \<Rightarrow> (Raised x, m2)
            | (Returned u, m2) \<Rightarrow> (Returned ([], True, False), m2))
         else (Returned ([], False, False), m1))
      else if event_type e = ''misc_input'' \<and> event_value e = Str ''TK_MOUSE_MOVE'' then
        (if menu_terminal m \<noteq> None \<and> pointer_inside then (Raised AttributeError, m)
         else (Returned ([], False, False), m))
      else (Returned ([], False, False), m))"

text \<open>
  \<open>MenuWidget.on_event\<close>: after the dispatch the event is passed to every child (which does
  nothing), the sound events are appended, and \<open>Layout.on_event\<close> runs, which on a
  \<open>service\<close>/\<open>tick_over\<close> event with \<open>needs_redraw\<close> set rebuilds the buffer and clears the flag.
\<close>

definition MenuWidget_on_event ::
  "MenuWidget \<Rightarrow> BearEvent \<Rightarrow> bool \<Rightarrow> BearEvent list outcome \<times> MenuWidget" where
  "MenuWidget_on_event m e pointer_inside =
     (case menu_dispatch m e pointer_inside of
        (Raised x, m1) \<Rightarrow> (Raised x, m1)
      | (Returned (r, have_switched, have_activated), m1) \<Rightarrow>
          (let ret = r @ sound_events (switch_sound m1) have_switched
                       @ sound_events (activation_sound m1) have_activated;
               m2 = (if event_type e = ''service'' \<and> event_value e = Str ''tick_over''
                        \<and> menu_needs_redraw m1
                     then m1\<lparr>menu_needs_redraw := False\<rparr> else m1)
           in (Returned ret, m2)))"

text \<open>Delivering a sequence of events, each with the backend's answer for it.\<close>

fun menu_run ::
  "MenuWidget \<Rightarrow> (BearEvent \<times> bool) list \<Rightarrow> unit outcome \<times> MenuWidget" where
  "menu_run m [] = (Returned (), m)"
| "menu_run m (e # es) =
     (case MenuWidget_on_event m (fst e) (snd e) of
        (Raised x, m') \<Rightarrow> (Raised x, m')
      | (Returned r, m') \<Rightarrow> menu_run m' es)"

definition key_down :: "string \<Rightarrow> BearEvent" where
  "key_down k = \<lparr>event_type = ''key_down'', event_value = Str k\<rparr>"

text \<open>Key events and ticks.\<close>

definition is_key_or_tick :: "BearEvent \<Rightarrow> bool" where
  "is_key_or_tick e =
     (event_type e = ''key_down'' \<or> event_type e = ''key_up''
      \<or> (event_type e = ''tick'' \<and> (case event_value e of Num v \<Rightarrow> True | _ \<Rightarrow> False)))"

definition is_MenuItem :: "menu_child \<Rightarrow> bool" where
  "is_MenuItem c = (case c of MenuItem hl act \<Rightarrow> True | OtherChild \<Rightarrow> False)"

text \<open>
  The menu as its constructor leaves it: the children at the navigable indices, from 1 to
  the last but one, are \<open>MenuItem\<close>s, and the highlight is one of these indices.
\<close>

definition menu_ok :: "MenuWidget \<Rightarrow> bool" where
  "menu_ok m =
     (list_all is_MenuItem (butlast (tl (menu_children m)))
      \<and> 1 \<le> current_highlight m
      \<and> current_highlight m \<le> int (length (menu_children m)) - 2)"

text \<open>A menu of three items under a header: five children, navigable indices 1 to 3.\<close>

definition demo_menu :: MenuWidget where
  "demo_menu =
     \<lparr>menu_children = [OtherChild, MenuItem True [], MenuItem False [], MenuItem False [],
                        OtherChild],
      current_highlight = 1, current_delay = 1 / 5, input_delay = 1 / 5,
      switch_sound = None, activation_sound = None, menu_terminal = None,
      menu_needs_redraw = False\<rparr>"

section \<open>Animation playback: what one tick does\<close>

lemmas demo_defs = demo_simple_def demo_multiple_def demo_animation_def demo_frames_def

lemma demo_animation_init:
  "Animation_init (\<lambda>a b. True) (\<lambda>a b. True) demo_frames 10 = Returned demo_animation"
  by (simp add: Animation_init_def demo_animation_def demo_frames_def)





text \<open>
  The non-cycling widget at the end of its sequence: the index has already been
  incremented past the last frame when the frame is looked up, so the handler raises, and
  the assignments after the lookup (buffer, waiting time) do not happen.
\<close>

lemma multiple_tick_end_raises:
  assumes "am_running w" "animations w (current_animation w) = Some a"
      and "have_waited w + v \<ge> frame_time a"
      and "running_index w + 1 \<ge> length (frames a)" "\<not> cycle w"
  shows "MultipleAnimationWidget_on_event w (tick v) =
           (Raised IndexError,
            w\<lparr>have_waited := have_waited w + v, running_index := running_index w + 1,
              am_running := False\<rparr>)"
  using assms
  by (auto simp add: MultipleAnimationWidget_on_event_def tick_def Let_def list_get_def
      current_anim_def)



lemma multiple_noncycling_seven_ticks:
  "multiple_run (demo_multiple False) (replicate 7 (tick (1 / 20))) =
     (Raised IndexError,
      (demo_multiple False)\<lparr>running_index := 3, chars := [''c''], colors := [[3]],
         have_waited := 1 / 10, am_running := False\<rparr>)"
  by (simp add: MultipleAnimationWidget_on_event_def demo_defs tick_def current_anim_def
      list_get_def Let_def numeral_eq_Suc)




text \<open>
  Claim C10 at a non-cycling \<open>MultipleAnimationWidget\<close> on its last frame (index 2 of 3):
  a tick of one frame time moves the index to 3 and stops the widget, the frame lookup
  raises \<open>IndexError\<close>, and \<open>have_waited\<close> keeps the accumulated 0.1 instead of being reset.
\<close>

theorem noncycling_last_frame_tick_raises:
  "MultipleAnimationWidget_on_event ((demo_multiple False)\<lparr>running_index := 2\<rparr>)
     (tick (1 / 10)) =
   (Raised IndexError,
    (demo_multiple False)\<lparr>running_index := 3, have_waited := 1 / 10, am_running := False\<rparr>)"
  by (simp add: MultipleAnimationWidget_on_event_def demo_defs tick_def current_anim_def
      list_get_def Let_def)

section \<open>Slice assignment and recomposition\<close>

lemma slice_range_fit:
  assumes "0 \<le> p" "p + int m \<le> int n"
  shows "slice_range n p (p + int m) = (nat p, m)"
  using assms by (auto simp add: slice_range_def slice_index_def min_def max_def)

lemma setitem_slice_fit:
  assumes "0 \<le> py" "0 \<le> px" "py + int (shape0 b) \<le> int (shape0 a)"
      and "px + int (shape1 b) \<le> int (shape1 a)"
  shows "setitem_slice a (py, py + int (shape0 b)) (px, px + int (shape1 b)) b =
     Returned (pasted a (nat py) (nat px) b)"
proof -
  have eq: "\<And>i j. (if nat py \<le> i \<and> i < nat py + shape0 b \<and> nat px \<le> j \<and> j < nat px + shape1 b
               then cells b ! (if shape0 b = 1 then 0 else i - nat py)
                            ! (if shape1 b = 1 then 0 else j - nat px)
               else cells a ! i ! j)
          = (if nat py \<le> i \<and> i < nat py + shape0 b \<and> nat px \<le> j \<and> j < nat px + shape1 b
               then cells b ! (i - nat py) ! (j - nat px)
               else cells a ! i ! j)"
    by auto
  show ?thesis
    unfolding setitem_slice_def pasted_def
    by (simp add: slice_range_fit [OF assms(1,3)] slice_range_fit [OF assms(2,4)] eq)
qed

lemma pasted_shape: "shape0 (pasted a r0 c0 b) = shape0 a" "shape1 (pasted a r0 c0 b) = shape1 a"
  by (simp_all add: pasted_def)

lemma pasted_wf: "wf_array (pasted a r0 c0 b)"
  by (simp add: pasted_def wf_array_def list_all_iff)

lemma pasted_cell:
  assumes "i < shape0 a" "j < shape1 a"
  shows "cells (pasted a r0 c0 b) ! i ! j =
     (if r0 \<le> i \<and> i < r0 + shape0 b \<and> c0 \<le> j \<and> j < c0 + shape1 b
      then cells b ! (i - r0) ! (j - c0) else cells a ! i ! j)"
  using assms by (simp add: pasted_def)

lemma wf_array_cells_eq:
  assumes "wf_array a" "wf_array b" "shape0 a = shape0 b" "shape1 a = shape1 b"
      and "\<And>i j. i < shape0 a \<Longrightarrow> j < shape1 a \<Longrightarrow> cells a ! i ! j = cells b ! i ! j"
  shows "cells a = cells b"
proof (rule nth_equalityI)
  show "length (cells a) = length (cells b)" using assms by (simp add: wf_array_def)
next
  fix i assume i: "i < length (cells a)"
  have la: "length (cells a ! i) = shape1 a"
    using assms(1) i by (simp add: wf_array_def list_all_length)
  have lb: "length (cells b ! i) = shape1 b"
    using assms(1,2,3) i by (simp add: wf_array_def list_all_length)
  show "cells a ! i = cells b ! i"
    apply (rule nth_equalityI)
    using la lb assms(4) apply simp
    using assms(5) [of i] i assms(1) la by (simp add: wf_array_def)
qed

lemma pasted_self:
  assumes "wf_array a"
  shows "pasted a 0 0 a = a"
proof -
  have "cells (pasted a 0 0 a) = cells a"
    by (rule wf_array_cells_eq [OF pasted_wf assms]) (simp_all add: pasted_shape pasted_cell)
  then show ?thesis by (simp add: pasted_def)
qed


lemma objs_set_array [simp]: "objs (set_array h addr a) = objs h"
  by (simp add: set_array_def)

lemma arrays_set_array [simp]: "arrays (set_array h addr a) = (arrays h)(addr \<mapsto> a)"
  by (simp add: set_array_def)

lemma set_array_twice [simp]: "set_array (set_array h addr a) addr b = set_array h addr b"
  by (simp add: set_array_def)

lemma set_array_same: "arrays h addr = Some a \<Longrightarrow> set_array h addr a = h"
  by (simp add: set_array_def map_upd_triv)

lemma array_of_set_array:
  "array_of (set_array h addr a) ob =
     (if tile_array ob = Some addr then Some a else array_of h ob)"
  by (simp add: array_of_def split: option.splits)

lemma child_ok_set_array:
  assumes "child_ok h so sa c" "arrays h addr = Some sa" "wf_array sa'"
      and "shape0 sa' = shape0 sa" "shape1 sa' = shape1 sa"
  shows "child_ok (set_array h addr sa') so sa' c"
  using assms
  by (auto simp add: child_ok_def array_of_set_array array_of_def split: option.splits)

lemma covers_set_array:
  assumes "arrays h addr = Some sa" "shape0 sa' = shape0 sa" "shape1 sa' = shape1 sa"
  shows "covers (set_array h addr sa') so c y x = covers h so c y x"
  using assms
  by (auto simp add: covers_def array_of_set_array array_of_def split: option.splits)

lemma paste_child_ok:
  assumes "objs h self = Some so" "tile_array so = Some addr" "arrays h addr = Some sa"
      and "child_ok h so sa c"
      and "objs h c = Some co" "array_of h co = Some ca" "child_locations so c = Some (py, px)"
  shows "paste_child h self c =
           (Returned (),
            if hidden co then h else set_array h addr (pasted sa (nat py) (nat px) ca))"
  using assms
  by (simp add: paste_child_def child_ok_def setitem_slice_fit)

lemma paste_children_ok:
  assumes "objs h self = Some so" "tile_array so = Some addr" "arrays h addr = Some sa"
      and "wf_array sa" "list_all (child_ok h so sa) cs"
  shows "\<exists>sa'. paste_children h self cs = (Returned (), set_array h addr sa')
            \<and> shape0 sa' = shape0 sa \<and> shape1 sa' = shape1 sa \<and> wf_array sa'
            \<and> (\<forall>y x. y < shape0 sa \<longrightarrow> x < shape1 sa \<longrightarrow>
                   (\<forall>c \<in> set cs. \<not> covers h so c y x) \<longrightarrow>
                   cells sa' ! y ! x = cells sa ! y ! x)"
  using assms
proof (induction cs arbitrary: h sa)
  case Nil
  then show ?case by (auto simp add: set_array_same intro!: exI [of _ sa])
next
  case (Cons c cs)
  from Cons.prems(5) have ok: "child_ok h so sa c" and oks: "list_all (child_ok h so sa) cs"
    by simp_all
  from ok obtain co ca py px where co: "objs h c = Some co" and ca: "array_of h co = Some ca"
    and loc: "child_locations so c = Some (py, px)"
    by (auto simp add: child_ok_def split: option.splits)
  define sa1 where "sa1 = (if hidden co then sa else pasted sa (nat py) (nat px) ca)"
  have step: "paste_child h self c = (Returned (), set_array h addr sa1)"
    using paste_child_ok [OF Cons.prems(1,2,3) ok co ca loc] Cons.prems(3)
    by (simp add: sa1_def set_array_same)
  have sh: "shape0 sa1 = shape0 sa" "shape1 sa1 = shape1 sa" and wf1: "wf_array sa1"
    using Cons.prems(4) by (simp_all add: sa1_def pasted_shape pasted_wf)
  let ?h1 = "set_array h addr sa1"
  have oks1: "list_all (child_ok ?h1 so sa1) cs"
    using oks child_ok_set_array [OF _ Cons.prems(3) wf1 sh] by (simp add: list_all_iff)
  have "\<exists>sa'. paste_children ?h1 self cs = (Returned (), set_array ?h1 addr sa')
            \<and> shape0 sa' = shape0 sa1 \<and> shape1 sa' = shape1 sa1 \<and> wf_array sa'
            \<and> (\<forall>y x. y < shape0 sa1 \<longrightarrow> x < shape1 sa1 \<longrightarrow>
                   (\<forall>c \<in> set cs. \<not> covers ?h1 so c y x) \<longrightarrow>
                   cells sa' ! y ! x = cells sa1 ! y ! x)"
    by (rule Cons.IH) (use Cons.prems(1,2) wf1 oks1 in simp_all)
  then obtain sa' where r: "paste_children ?h1 self cs = (Returned (), set_array ?h1 addr sa')"
    and sh': "shape0 sa' = shape0 sa1" "shape1 sa' = shape1 sa1" and wf': "wf_array sa'"
    and fr: "\<And>y x. y < shape0 sa1 \<Longrightarrow> x < shape1 sa1 \<Longrightarrow>
                   (\<forall>c \<in> set cs. \<not> covers ?h1 so c y x) \<Longrightarrow>
                   cells sa' ! y ! x = cells sa1 ! y ! x"
    by blast
  have frame: "cells sa' ! y ! x = cells sa ! y ! x"
    if y: "y < shape0 sa" and x: "x < shape1 sa"
      and nc: "\<forall>c' \<in> set (c # cs). \<not> covers h so c' y x" for y x
  proof -
    have "cells sa' ! y ! x = cells sa1 ! y ! x"
      using fr [of y x] y x nc sh covers_set_array [OF Cons.prems(3) sh] by simp
    also have "cells sa1 ! y ! x = cells sa ! y ! x"
    proof (cases "hidden co")
      case True then show ?thesis by (simp add: sa1_def)
    next
      case False
      from nc have "\<not> covers h so c y x" by simp
      with False co ca loc ok have
        "\<not> (nat py \<le> y \<and> y < nat py + shape0 ca \<and> nat px \<le> x \<and> x < nat px + shape1 ca)"
        by (auto simp add: covers_def child_ok_def)
      with False show ?thesis using y x by (auto simp add: sa1_def pasted_cell)
    qed
    finally show ?thesis .
  qed
  show ?case
    apply (rule exI [of _ sa'])
    using step r sh sh' wf' frame by simp
qed

lemma paste_children_append:
  "paste_children h self (xs @ ys) =
     (case paste_children h self xs of
        (Raised x, h') \<Rightarrow> (Raised x, h')
      | (Returned u, h') \<Rightarrow> paste_children h' self ys)"
  by (induction xs arbitrary: h) (auto split: prod.splits outcome.splits)

lemma list_all_child_ok_set_array:
  assumes "list_all (child_ok h so sa) cs" "arrays h addr = Some sa" "wf_array sa'"
      and "shape0 sa' = shape0 sa" "shape1 sa' = shape1 sa"
  shows "list_all (child_ok (set_array h addr sa') so sa') cs"
  using assms(1) child_ok_set_array [OF _ assms(2,3,4,5)] by (simp add: list_all_iff)

lemma paint_order_cell:
  assumes so: "objs h self = Some so" and addr: "tile_array so = Some addr"
      and sa: "arrays h addr = Some sa" and wf: "wf_array sa"
      and oks: "list_all (child_ok h so sa) (children so)"
      and k: "k < length (children so)"
      and co: "objs h (children so ! k) = Some co" and nh: "\<not> hidden co"
      and ca: "array_of h co = Some ca"
      and loc: "child_locations so (children so ! k) = Some (py, px)"
      and i: "i < shape0 ca" and j: "j < shape1 ca"
      and later: "\<forall>k'. k < k' \<and> k' < length (children so) \<longrightarrow>
                   \<not> covers h so (children so ! k') (nat py + i) (nat px + j)"
  shows "\<exists>sa' ca'. Layout_rebuild_self h self = (Returned (), set_array h addr sa')
           \<and> shape0 sa' = shape0 sa \<and> shape1 sa' = shape1 sa
           \<and> array_of (set_array h addr sa') co = Some ca'
           \<and> shape0 ca' = shape0 ca \<and> shape1 ca' = shape1 ca
           \<and> cells sa' ! (nat py + i) ! (nat px + j) = cells ca' ! i ! j
           \<and> (tile_array co \<noteq> Some addr \<longrightarrow> ca' = ca)"
proof -
  let ?cs = "children so"
  let ?c = "?cs ! k"
  let ?pre = "take k ?cs" and ?post = "drop (Suc k) ?cs"
  have split: "?cs = ?pre @ ?c # ?post" using k by (simp add: id_take_nth_drop)
  have okc: "child_ok h so sa ?c" using oks k by (simp add: list_all_length)
  have fit: "0 \<le> py" "0 \<le> px" "py + int (shape0 ca) \<le> int (shape0 sa)"
    "px + int (shape1 ca) \<le> int (shape1 sa)" and wfc: "wf_array ca"
    using okc co ca loc by (simp_all add: child_ok_def)
  have yb: "nat py + i < shape0 sa" and xb: "nat px + j < shape1 sa"
    using fit i j by linarith+
  have oks_pre: "list_all (child_ok h so sa) ?pre"
    using oks by (metis append_take_drop_id list_all_append)
  have oks_post: "list_all (child_ok h so sa) ?post"
    using oks by (metis append_take_drop_id list_all_append)
  \<comment> \<open>the children before \<open>k\<close>\<close>
  from paste_children_ok [OF so addr sa wf oks_pre]
  obtain sa1 where r1: "paste_children h self ?pre = (Returned (), set_array h addr sa1)"
    and sh1: "shape0 sa1 = shape0 sa" "shape1 sa1 = shape1 sa" and wf1: "wf_array sa1"
    by blast
  let ?h1 = "set_array h addr sa1"
  have sa1: "arrays ?h1 addr = Some sa1" by simp
  \<comment> \<open>the child \<open>k\<close> itself\<close>
  define cb where "cb = (if tile_array co = Some addr then sa1 else ca)"
  have cb: "array_of ?h1 co = Some cb" using ca by (simp add: array_of_set_array cb_def)
  have cbsh: "shape0 cb = shape0 ca" "shape1 cb = shape1 ca"
    using ca sa sh1 by (auto simp add: cb_def array_of_def)
  have okc1: "child_ok ?h1 so sa1 ?c" by (rule child_ok_set_array [OF okc sa wf1 sh1])
  let ?sa2 = "pasted sa1 (nat py) (nat px) cb"
  have r2: "paste_child ?h1 self ?c = (Returned (), set_array h addr ?sa2)"
    using paste_child_ok [of ?h1 self so addr sa1 ?c co cb py px] so addr okc1 co cb loc nh
    by simp
  have sh2: "shape0 ?sa2 = shape0 sa" "shape1 ?sa2 = shape1 sa"
    by (simp_all add: pasted_shape sh1)
  have wf2: "wf_array ?sa2" by (rule pasted_wf)
  have cell2: "cells ?sa2 ! (nat py + i) ! (nat px + j) = cells cb ! i ! j"
    using yb xb i j by (simp add: pasted_cell sh1 cbsh)
  let ?h2 = "set_array h addr ?sa2"
  \<comment> \<open>the children after \<open>k\<close>\<close>
  have sa2: "arrays ?h2 addr = Some ?sa2" by simp
  have oks2: "list_all (child_ok ?h2 so ?sa2) ?post"
    by (rule list_all_child_ok_set_array [OF oks_post sa wf2 sh2])
  from paste_children_ok [of ?h2 self so addr ?sa2 ?post] so addr wf2 oks2
  obtain sa3 where r3: "paste_children ?h2 self ?post = (Returned (), set_array h addr sa3)"
    and sh3: "shape0 sa3 = shape0 sa" "shape1 sa3 = shape1 sa" and wf3: "wf_array sa3"
    and fr3: "\<And>y x. y < shape0 sa \<Longrightarrow> x < shape1 sa \<Longrightarrow>
                (\<forall>c \<in> set ?post. \<not> covers ?h2 so c y x) \<Longrightarrow>
                cells sa3 ! y ! x = cells ?sa2 ! y ! x"
    by (auto simp add: sh2)
  have nocover: "\<forall>c \<in> set ?post. \<not> covers ?h2 so c (nat py + i) (nat px + j)"
  proof
    fix c assume "c \<in> set ?post"
    then obtain n where n: "n < length ?post" "c = ?post ! n" by (auto simp add: in_set_conv_nth)
    then have "c = ?cs ! (Suc k + n)" "Suc k + n < length ?cs" using k by auto
    with later have "\<not> covers h so c (nat py + i) (nat px + j)" by simp
    then show "\<not> covers ?h2 so c (nat py + i) (nat px + j)"
      by (simp add: covers_set_array [OF sa sh2])
  qed
  have cell3: "cells sa3 ! (nat py + i) ! (nat px + j) = cells cb ! i ! j"
    using fr3 [OF yb xb nocover] cell2 by simp
  have run: "Layout_rebuild_self h self = (Returned (), set_array h addr sa3)"
    unfolding Layout_rebuild_self_def using so
    apply simp
    apply (subst split)
    apply (simp add: paste_children_append r1 r2 r3)
    done
  show ?thesis
  proof (cases "tile_array co = Some addr")
    case True
    then have eq: "ca = sa" using ca sa by (simp add: array_of_def)
    with fit have "py = 0" "px = 0" by simp_all
    with True run sh3 eq show ?thesis
      by (intro exI [of _ sa3]) (simp add: array_of_set_array)
  next
    case False
    with run cell3 ca sh3 show ?thesis
      by (intro exI [of _ sa3] exI [of _ ca]) (simp add: array_of_set_array cb_def)
  qed
qed

section \<open>The example states, evaluated\<close>

lemma set_terminal_numeral:
  "set_terminal (numeral k) h w v =
     (case objs h w of
        None \<Rightarrow> (Returned (), h)
      | Some ob \<Rightarrow>
          (let h1 = h\<lparr>objs := (objs h)(w \<mapsto> ob\<lparr>terminal := v\<rparr>)\<rparr>
           in if is_Layout (cls ob) then set_terminal_children (pred_numeral k) h1 (children ob) v
              else (Returned (), h1)))"
  by (simp add: numeral_eq_Suc)

lemmas eval_defs = Layout_init_def new_object_def add_child_def array_of_def Let_def
      upd_obj_def is_Widget_def is_Layout_def Widget_init_def recursion_limit_def
      set_terminal_numeral set_array_def

lemma demo_layout_eq:
  "Layout_init recursion_limit demo_base LayoutCls 10 None =
     (Returned 20,
      demo_base\<lparr>objs := (objs demo_base)
          (20 \<mapsto> layout20 [21] [21 \<mapsto> (0, 0)] False, 21 \<mapsto> child_of20 10),
        next_id := 22\<rparr>)"
  by (simp add: eval_defs demo_base_def layout20_def child_of20_def fun_upd_twist)

lemma demo_layout_world:
  "demo_layout = demo_base\<lparr>objs := (objs demo_base)
          (20 \<mapsto> layout20 [21] [21 \<mapsto> (0, 0)] False, 21 \<mapsto> child_of20 10),
        next_id := 22\<rparr>"
  by (simp only: demo_layout_def demo_layout_eq snd_conv)

lemma demo_one_child_eq:
  "add_child recursion_limit demo_layout 20 1 (0, 0) =
     (Returned (),
      demo_base\<lparr>objs := (objs demo_base)
          (20 \<mapsto> layout20 [21, 1] [21 \<mapsto> (0, 0), 1 \<mapsto> (0, 0)] True,
           21 \<mapsto> child_of20 10, 1 \<mapsto> child_of20 11),
        next_id := 22\<rparr>)"
  apply (simp add: demo_layout_world)
  apply (simp add: eval_defs demo_base_def layout20_def child_of20_def cell_array_def)
  apply (rule ext) apply simp
  done

lemma demo_one_child_world:
  "demo_one_child = demo_base\<lparr>objs := (objs demo_base)
          (20 \<mapsto> layout20 [21, 1] [21 \<mapsto> (0, 0), 1 \<mapsto> (0, 0)] True,
           21 \<mapsto> child_of20 10, 1 \<mapsto> child_of20 11),
        next_id := 22\<rparr>"
  by (simp only: demo_one_child_def demo_one_child_eq snd_conv)

lemma demo_three_children_world:
  "demo_three_children = demo_base\<lparr>objs := (objs demo_base)
          (20 \<mapsto> layout20 [21, 1, 2, 3]
                   [21 \<mapsto> (0, 0), 1 \<mapsto> (0, 0), 2 \<mapsto> (0, 0), 3 \<mapsto> (0, 0)] True,
           21 \<mapsto> child_of20 10, 1 \<mapsto> child_of20 11, 2 \<mapsto> child_of20 12,
           3 \<mapsto> child_of20 13),
        next_id := 22\<rparr>"
  apply (simp only: demo_three_children_def demo_one_child_world)
  apply (simp add: eval_defs demo_base_def layout20_def child_of20_def cell_array_def)
  apply (rule ext) apply simp
  done

lemmas paste_defs = Layout_rebuild_self_def paste_child_def setitem_slice_def slice_range_def
  slice_index_def array_of_def set_array_def cell_array_def

lemma demo_one_child_rebuild:
  "Layout_rebuild_self demo_one_child 20 =
     (Returned (), set_array demo_one_child 10 (cell_array CHR ''a''))"
  apply (simp add: demo_one_child_world)
  apply (simp add: paste_defs demo_base_def layout20_def child_of20_def Widget_init_def)
  done

lemma demo_three_children_rebuild:
  "Layout_rebuild_self demo_three_children 20 =
     (Returned (), set_array demo_three_children 10 (cell_array CHR ''c''))"
  apply (simp add: demo_three_children_world)
  apply (simp add: paste_defs demo_base_def layout20_def child_of20_def Widget_init_def)
  done

text \<open>
  Claim C1 as written fails when a third child lies on top: widgets 1, 2 and 3 were added
  in this order at the same cell, all shown; after the rebuild the layout shows the tile of
  widget 3 there, not the tile of widget 2.
\<close>

theorem third_child_covers_second:
  "map_option children (objs demo_three_children 20) = Some [21, 1, 2, 3]
   \<and> map_option hidden (objs demo_three_children 1) = Some False
   \<and> map_option hidden (objs demo_three_children 2) = Some False
   \<and> map_option (\<lambda>so. covers demo_three_children so 1 0 0) (objs demo_three_children 20)
       = Some True
   \<and> map_option (\<lambda>so. covers demo_three_children so 2 0 0) (objs demo_three_children 20)
       = Some True
   \<and> fst (Layout_rebuild_self demo_three_children 20) = Returned ()
   \<and> cell_at (snd (Layout_rebuild_self demo_three_children 20)) 20 0 0
       = Some (tile_of CHR ''c'')
   \<and> cell_at (snd (Layout_rebuild_self demo_three_children 20)) 2 0 0
       = Some (tile_of CHR ''b'')
   \<and> tile_of CHR ''c'' \<noteq> tile_of CHR ''b''"
  apply (simp add: demo_three_children_rebuild)
  apply (simp add: demo_three_children_world)
  apply (simp add: demo_base_def layout20_def child_of20_def Widget_init_def covers_def
      array_of_def cell_at_def cell_array_def set_array_def tile_of_def)
  done

text \<open>
  Claim C8 at a layout with one added child: the background child (object 21) was built
  on the layout's own array, so pasting widget 1 into the layout's array changes what the
  background child holds, from \<open>.\<close> to \<open>a\<close>.
\<close>

theorem background_overwritten_by_rebuild:
  "map_option children (objs demo_one_child 20) = Some [21, 1]
   \<and> cell_at demo_one_child 21 0 0 = Some (tile_of CHR ''.'')
   \<and> fst (Layout_rebuild_self demo_one_child 20) = Returned ()
   \<and> cell_at (snd (Layout_rebuild_self demo_one_child 20)) 21 0 0 = Some (tile_of CHR ''a'')
   \<and> tile_of CHR ''a'' \<noteq> tile_of CHR ''.''"
  apply (simp add: demo_one_child_rebuild)
  apply (simp add: demo_one_child_world)
  apply (simp add: demo_base_def layout20_def child_of20_def Widget_init_def
      array_of_def cell_at_def cell_array_def set_array_def tile_of_def)
  done

text \<open>
  Claim C1, as the code has it. In a well-formed layout the rebuild returns, and for every
  shown child \<open>B\<close> and every cell of \<open>B\<close> that no shown child later in the list covers, the
  layout's array holds \<open>B\<close>'s tile at \<open>B\<close>'s position plus the cell: children are pasted
  oldest first, hidden ones are skipped, and a later child overwrites an earlier one, so
  where \<open>A\<close> and \<open>B\<close> overlap and \<open>B\<close> is the latest child there the cell is \<open>B\<close>'s. A child
  that does not share the layout's array keeps the tiles it had.
\<close>

theorem rebuild_paint_order:
  assumes "layout_ok h self" and "objs h self = Some so" and "k < length (children so)"
      and "objs h (children so ! k) = Some co" and "\<not> hidden co"
      and "array_of h co = Some ca"
      and "child_locations so (children so ! k) = Some (py, px)"
      and "i < shape0 ca" and "j < shape1 ca"
      and "\<forall>k'. k < k' \<and> k' < length (children so) \<longrightarrow>
             \<not> covers h so (children so ! k') (nat py + i) (nat px + j)"
  shows "\<exists>h'. Layout_rebuild_self h self = (Returned (), h')
           \<and> cell_at h' (children so ! k) i j \<noteq> None
           \<and> cell_at h' self (nat py + i) (nat px + j) = cell_at h' (children so ! k) i j
           \<and> (tile_array co \<noteq> tile_array so \<longrightarrow>
                cell_at h' (children so ! k) i j = Some (cells ca ! i ! j))"
proof -
  from assms(1,2) obtain addr sa where addr: "tile_array so = Some addr"
    and sa: "arrays h addr = Some sa" and wf: "wf_array sa"
    and oks: "list_all (child_ok h so sa) (children so)"
    by (auto simp add: layout_ok_def array_of_def split: option.splits)
  have okc: "child_ok h so sa (children so ! k)"
    using oks assms(3) by (simp add: list_all_length)
  have fit: "0 \<le> py" "0 \<le> px" "py + int (shape0 ca) \<le> int (shape0 sa)"
    "px + int (shape1 ca) \<le> int (shape1 sa)"
    using okc assms(4,6,7) by (simp_all add: child_ok_def)
  have yb: "nat py + i < shape0 sa" and xb: "nat px + j < shape1 sa"
    using fit assms(8,9) by linarith+
  from paint_order_cell [OF assms(2) addr sa wf oks assms(3,4,5,6,7,8,9,10)]
  obtain sa' ca' where run: "Layout_rebuild_self h self = (Returned (), set_array h addr sa')"
    and sh: "shape0 sa' = shape0 sa" "shape1 sa' = shape1 sa"
    and ca': "array_of (set_array h addr sa') co = Some ca'"
    and shc: "shape0 ca' = shape0 ca" "shape1 ca' = shape1 ca"
    and cell: "cells sa' ! (nat py + i) ! (nat px + j) = cells ca' ! i ! j"
    and same: "tile_array co \<noteq> Some addr \<longrightarrow> ca' = ca"
    by blast
  let ?h' = "set_array h addr sa'"
  have c1: "cell_at ?h' (children so ! k) i j = Some (cells ca' ! i ! j)"
    using assms(4,8,9) ca' shc by (simp add: cell_at_def)
  have c2: "cell_at ?h' self (nat py + i) (nat px + j)
              = Some (cells sa' ! (nat py + i) ! (nat px + j))"
    using assms(2) addr sh yb xb by (simp add: cell_at_def array_of_set_array)
  show ?thesis
    using run c1 c2 cell same addr by (intro exI [of _ ?h']) auto
qed

lemmas world_defs = demo_base_def layout20_def child_of20_def Widget_init_def
  array_of_def cell_array_def tile_of_def

theorem rebuild_paint_order_witness:
  "layout_ok demo_three_children 20
   \<and> objs demo_three_children 3 = Some (child_of20 13)
   \<and> \<not> hidden (child_of20 13)
   \<and> array_of demo_three_children (child_of20 13) = Some (cell_array CHR ''c'')
   \<and> (\<exists>h'. Layout_rebuild_self demo_three_children 20 = (Returned (), h')
          \<and> cell_at h' 20 0 0 = cell_at h' 3 0 0
          \<and> cell_at h' 3 0 0 = Some (tile_of CHR ''c''))"
proof -
  let ?so = "layout20 [21, 1, 2, 3]
      [21 \<mapsto> (0, 0), 1 \<mapsto> (0, 0), 2 \<mapsto> (0, 0), 3 \<mapsto> (0, 0)] True"
  have a1: "layout_ok demo_three_children 20"
    unfolding demo_three_children_world
    by (simp add: world_defs layout_ok_def child_ok_def wf_array_def)
  have a2: "objs demo_three_children 20 = Some ?so"
    unfolding demo_three_children_world by simp
  have a3: "3 < length (children ?so)" by (simp add: layout20_def)
  have a4: "objs demo_three_children (children ?so ! 3) = Some (child_of20 13)"
    unfolding demo_three_children_world by (simp add: layout20_def)
  have a5: "\<not> hidden (child_of20 13)" by (simp add: child_of20_def Widget_init_def)
  have a6: "array_of demo_three_children (child_of20 13) = Some (cell_array CHR ''c'')"
    unfolding demo_three_children_world by (simp add: world_defs)
  have a7: "child_locations ?so (children ?so ! 3) = Some (0, 0)"
    by (simp add: layout20_def)
  have a8: "0 < shape0 (cell_array CHR ''c'')" "0 < shape1 (cell_array CHR ''c'')"
    by (simp_all add: cell_array_def)
  have a9: "\<forall>k'. 3 < k' \<and> k' < length (children ?so) \<longrightarrow>
             \<not> covers demo_three_children ?so (children ?so ! k') (nat 0 + 0) (nat 0 + 0)"
  proof (intro allI impI)
    fix k' assume "3 < k' \<and> k' < length (children ?so)"
    moreover have "length (children ?so) = 4" by (simp add: layout20_def)
    ultimately have False by linarith
    then show "\<not> covers demo_three_children ?so (children ?so ! k') (nat 0 + 0) (nat 0 + 0)" ..
  qed
  from rebuild_paint_order [OF a1 a2 a3 a4 a5 a6 a7 a8 a9]
  have "\<exists>h'. Layout_rebuild_self demo_three_children 20 = (Returned (), h')
          \<and> cell_at h' 20 0 0 = cell_at h' 3 0 0
          \<and> cell_at h' 3 0 0 = Some (tile_of CHR ''c'')"
    by (auto simp add: layout20_def child_of20_def Widget_init_def cell_array_def)
  with a1 a4 a5 a6 show ?thesis by (simp add: layout20_def)
qed

section \<open>Redraw on the tick boundary\<close>








section \<open>Adding a child\<close>

lemma terminal_only_refl: "terminal_only v h h"
  by (simp add: terminal_only_def)

lemma terminal_only_trans:
  assumes "terminal_only v h h1" "terminal_only v h1 h2"
  shows "terminal_only v h h2"
  unfolding terminal_only_def
proof (intro conjI allI)
  fix i
  from assms have a: "objs h1 i = objs h i
              \<or> (\<exists>ob. objs h i = Some ob \<and> objs h1 i = Some (ob\<lparr>terminal := v\<rparr>))"
    and b: "objs h2 i = objs h1 i
              \<or> (\<exists>ob. objs h1 i = Some ob \<and> objs h2 i = Some (ob\<lparr>terminal := v\<rparr>))"
    by (simp_all add: terminal_only_def)
  from a b show "objs h2 i = objs h i
              \<or> (\<exists>ob. objs h i = Some ob \<and> objs h2 i = Some (ob\<lparr>terminal := v\<rparr>))"
    by (elim disjE exE) (simp_all, metis)
qed (use assms in \<open>simp_all add: terminal_only_def\<close>)

lemma terminal_only_step:
  assumes "objs h w = Some ob"
  shows "terminal_only v h (h\<lparr>objs := (objs h)(w \<mapsto> ob\<lparr>terminal := v\<rparr>)\<rparr>)"
  using assms by (simp add: terminal_only_def)

lemma set_terminal_effect:
  "terminal_only v h (snd (set_terminal n h w v))
   \<and> (fst (set_terminal n h w v) = Returned () \<or> fst (set_terminal n h w v) = Raised RecursionError)"
  and set_terminal_children_effect:
  "terminal_only v h (snd (set_terminal_children n h cs v))
   \<and> (fst (set_terminal_children n h cs v) = Returned ()
        \<or> fst (set_terminal_children n h cs v) = Raised RecursionError)"
proof (induction n h w v and n h cs v rule: set_terminal_set_terminal_children.induct)
  case (1 h w v)
  then show ?case by (simp add: terminal_only_refl)
next
  case (2 n h w v)
  show ?case
  proof (cases "objs h w")
    case None
    then show ?thesis by (simp add: terminal_only_refl)
  next
    case (Some ob)
    let ?h1 = "h\<lparr>objs := (objs h)(w \<mapsto> ob\<lparr>terminal := v\<rparr>)\<rparr>"
    show ?thesis
    proof (cases "is_Layout (cls ob)")
      case True
      from "2.IH" [OF Some refl True]
      have t: "terminal_only v ?h1 (snd (set_terminal_children n ?h1 (children ob) v))"
        and r: "fst (set_terminal_children n ?h1 (children ob) v) = Returned ()
          \<or> fst (set_terminal_children n ?h1 (children ob) v) = Raised RecursionError"
        by simp_all
      have "terminal_only v h (snd (set_terminal_children n ?h1 (children ob) v))"
        by (rule terminal_only_trans [OF terminal_only_step [OF Some] t])
      with r Some True show ?thesis by (simp add: Let_def)
    next
      case False
      with Some terminal_only_step [OF Some, of v] show ?thesis by (simp add: Let_def)
    qed
  qed
next
  case (3 n h v)
  then show ?case by (simp add: terminal_only_refl)
next
  case (4 n h c cs v)
  obtain r h' where s: "set_terminal n h c v = (r, h')" by (cases "set_terminal n h c v")
  from "4.IH"(1) s have t1: "terminal_only v h h'"
    and r1: "r = Returned () \<or> r = Raised RecursionError" by simp_all
  show ?case
  proof (cases r)
    case (Raised x)
    with s t1 r1 show ?thesis by simp
  next
    case (Returned u)
    from "4.IH"(2) [OF s [symmetric] Returned]
    have "terminal_only v h' (snd (set_terminal_children n h' cs v))"
      and r2: "fst (set_terminal_children n h' cs v) = Returned ()
        \<or> fst (set_terminal_children n h' cs v) = Raised RecursionError"
      by simp_all
    with t1 have "terminal_only v h (snd (set_terminal_children n h' cs v))"
      by (meson terminal_only_trans)
    with r2 s Returned show ?thesis by simp
  qed
qed

lemma set_terminal_raises_only_RecursionError:
  assumes "set_terminal n h w v = (Raised x, h')"
  shows "x = RecursionError"
  using set_terminal_effect [of v h n w] assms by simp

lemma terminal_onlyD:
  assumes "terminal_only v h h'"
  shows "objs h' i = objs h i
           \<or> (\<exists>ob. objs h i = Some ob \<and> objs h' i = Some (ob\<lparr>terminal := v\<rparr>))"
  using assms by (simp add: terminal_only_def)

lemma set_terminal_returned_sets:
  assumes "set_terminal n h w v = (Returned u, h')" "objs h w = Some ob"
  shows "objs h' w = Some (ob\<lparr>terminal := v\<rparr>)"
proof (cases n)
  case 0
  with assms show ?thesis by simp
next
  case (Suc m)
  let ?h1 = "h\<lparr>objs := (objs h)(w \<mapsto> ob\<lparr>terminal := v\<rparr>)\<rparr>"
  have "terminal_only v ?h1 h'"
  proof (cases "is_Layout (cls ob)")
    case True
    with assms Suc have "set_terminal_children m ?h1 (children ob) v = (Returned u, h')"
      by (simp add: Let_def)
    with set_terminal_children_effect [of v ?h1 m "children ob"] show ?thesis by simp
  next
    case False
    with assms Suc show ?thesis by (auto simp add: Let_def terminal_only_refl)
  qed
  from terminal_onlyD [OF this, of w] show ?thesis by auto
qed

lemma add_child_raise_unchanged:
  assumes "add_child fuel h self child pos = (Raised x, h')" "x \<noteq> RecursionError"
  shows "h' = h"
  using assms
  by (auto simp add: add_child_def Let_def split: option.splits if_splits prod.splits outcome.splits
      dest: set_terminal_raises_only_RecursionError)

lemma scroll_to_raise_unchanged:
  assumes "scroll_to h self pos = (Raised x, h')"
  shows "h' = h"
  using assms
  by (auto simp add: scroll_to_def split: option.splits if_splits list.splits)

lemma switch_to_image_raise_unchanged:
  assumes "switch_to_image w image_id = (Raised x, w')"
  shows "w' = w"
  using assms
  by (auto simp add: switch_to_image_def Let_def split: option.splits if_splits)


text \<open>The state in which \<open>add_child\<close> calls the setter of \<open>terminal\<close>: the child is already in
  the list of children and has its position recorded.\<close>

lemma add_child_checks_passed:
  assumes "objs h self = Some so" "objs h child = Some co"
      and "array_of h so = Some sa" "array_of h co = Some ca"
      and "is_Widget (cls co)" "child \<notin> set (children so)"
      and "shape0 ca \<le> shape0 sa" "shape1 ca \<le> shape1 sa"
      and "int (shape0 ca) + fst pos \<le> int (shape0 sa)"
      and "int (shape1 ca) + snd pos \<le> int (shape1 sa)"
      and "child \<noteq> self"
  shows "add_child fuel h self child pos =
     (case set_terminal fuel
             (h\<lparr>objs := (objs h)(self \<mapsto>
                  so\<lparr>children := children so @ [child],
                     child_locations := (child_locations so)(child \<mapsto> pos)\<rparr>)\<rparr>)
             child (terminal so) of
        (Raised x, h3) \<Rightarrow> (Raised x, h3)
      | (Returned u, h3) \<Rightarrow>
          (Returned (),
           upd_obj (upd_obj h3 child (\<lambda>ob. ob\<lparr>parent := WidgetParent self\<rparr>))
             self (\<lambda>ob. ob\<lparr>needs_redraw := True\<rparr>)))"
  using assms
  by (simp add: add_child_def Let_def upd_obj_def not_less split: prod.splits outcome.splits)

lemma terminal_update_same:
  "terminal ob = v \<Longrightarrow> ob\<lparr>terminal := v\<rparr> = (ob :: pyobj)"
  by (cases ob) auto

lemma world_objs_same: "objs h w = Some ob \<Longrightarrow> h\<lparr>objs := (objs h)(w \<mapsto> ob)\<rparr> = h"
  by (simp add: map_upd_triv)

lemma mutual_containment_never_returns:
  assumes "objs h a = Some oa" "is_Layout (cls oa)" "children oa = [ba, b]" "terminal oa = v"
      and "objs h b = Some ob" "is_Layout (cls ob)" "children ob = [bb, a]" "terminal ob = v"
      and "objs h ba = Some oba" "\<not> is_Layout (cls oba)" "terminal oba = v"
      and "objs h bb = Some obb" "\<not> is_Layout (cls obb)" "terminal obb = v"
  shows "set_terminal n h a v = (Raised RecursionError, h)
       \<and> set_terminal n h b v = (Raised RecursionError, h)"
proof (induction n)
  case 0
  show ?case by simp
next
  case (Suc n)
  have leaf_a: "set_terminal n h ba v = (if n = 0 then (Raised RecursionError, h) else (Returned (), h))"
    using assms(9,10,11) by (cases n) (simp_all add: terminal_update_same world_objs_same)
  have leaf_b: "set_terminal n h bb v = (if n = 0 then (Raised RecursionError, h) else (Returned (), h))"
    using assms(12,13,14) by (cases n) (simp_all add: terminal_update_same world_objs_same)
  have "set_terminal (Suc n) h a v = (Raised RecursionError, h)"
    using assms(1-4) leaf_a Suc.IH
    by (simp add: terminal_update_same world_objs_same)
  moreover have "set_terminal (Suc n) h b v = (Raised RecursionError, h)"
    using assms(5-8) leaf_b Suc.IH
    by (simp add: terminal_update_same world_objs_same)
  ultimately show ?case by simp
qed

lemma demo_nested_world:
  "demo_nested = demo_base\<lparr>objs := (objs demo_base)
          (20 \<mapsto> layout20 [21, 22] [21 \<mapsto> (0, 0), 22 \<mapsto> (0, 0)] True,
           21 \<mapsto> child_of20 10,
           22 \<mapsto> (Widget_init LayoutCls (Some 11) None)
                   \<lparr>children := [23], child_locations := [23 \<mapsto> (0, 0)],
                      parent := WidgetParent 20\<rparr>,
           23 \<mapsto> (Widget_init WidgetCls (Some 11) None)\<lparr>parent := WidgetParent 22\<rparr>),
        next_id := 24\<rparr>"
  unfolding demo_nested_def demo_layout_world
  apply (simp add: eval_defs demo_base_def layout20_def child_of20_def cell_array_def)
  apply (rule ext) apply simp
  done


text \<open>
  Claim C4 as written fails for \<open>add_child\<close>: layout 22 is a child of layout 20, and adding
  20 to 22 passes every check, appends 20 to the children of 22 and then assigns
  \<open>terminal\<close>, which the two layouts hand to each other until the recursion limit is hit.
  The call raises with the child already appended.
\<close>

theorem add_child_recursion_error_after_append:
  "fst (add_child recursion_limit demo_nested 22 20 (0, 0)) = Raised RecursionError
   \<and> map_option children (objs demo_nested 22) = Some [23]
   \<and> map_option children (objs (snd (add_child recursion_limit demo_nested 22 20 (0, 0))) 22)
       = Some [23, 20]"
proof -
  let ?B = "(Widget_init LayoutCls (Some 11) None)
              \<lparr>children := [23], child_locations := [23 \<mapsto> (0, 0)],
                 parent := WidgetParent 20\<rparr>"
  let ?A = "layout20 [21, 22] [21 \<mapsto> (0, 0), 22 \<mapsto> (0, 0)] True"
  let ?h2 = "demo_nested\<lparr>objs := (objs demo_nested)(22 \<mapsto>
                  ?B\<lparr>children := children ?B @ [20],
                     child_locations := (child_locations ?B)(20 \<mapsto> (0, 0))\<rparr>)\<rparr>"
  have B: "objs demo_nested 22 = Some ?B" and A: "objs demo_nested 20 = Some ?A"
    unfolding demo_nested_world by simp_all
  have arrB: "array_of demo_nested ?B = Some (cell_array CHR ''a'')"
    and arrA: "array_of demo_nested ?A = Some (cell_array CHR ''.'')"
    unfolding demo_nested_world by (simp_all add: world_defs)
  have step: "add_child recursion_limit demo_nested 22 20 (0, 0) =
     (case set_terminal recursion_limit ?h2 20 (terminal ?B) of
        (Raised x, h3) \<Rightarrow> (Raised x, h3)
      | (Returned u, h3) \<Rightarrow>
          (Returned (),
           upd_obj (upd_obj h3 20 (\<lambda>ob. ob\<lparr>parent := WidgetParent 22\<rparr>))
             22 (\<lambda>ob. ob\<lparr>needs_redraw := True\<rparr>)))"
    by (rule add_child_checks_passed [OF B A arrB arrA])
       (simp_all add: layout20_def Widget_init_def is_Widget_def cell_array_def)
  have loop: "set_terminal recursion_limit ?h2 20 None = (Raised RecursionError, ?h2)"
    by (rule mutual_containment_never_returns [
          where b = 22 and ba = 21 and bb = 23 and oa = ?A
            and ob = "?B\<lparr>children := children ?B @ [20],
                     child_locations := (child_locations ?B)(20 \<mapsto> (0, 0))\<rparr>"
            and oba = "child_of20 10"
            and obb = "(Widget_init WidgetCls (Some 11) None)\<lparr>parent := WidgetParent 22\<rparr>",
          THEN conjunct1])
       (simp_all add: demo_nested_world layout20_def child_of20_def Widget_init_def is_Layout_def)
  have res: "add_child recursion_limit demo_nested 22 20 (0, 0) = (Raised RecursionError, ?h2)"
    unfolding step using loop by (simp add: Widget_init_def)
  show ?thesis
    unfolding res using B by (simp add: Widget_init_def)
qed

text \<open>
  Claim C4, as the code has it: \<open>add_child\<close>, \<open>scroll_to\<close> and \<open>switch_to_image\<close> do all their
  checks before the first assignment, so when one of them raises from a check (for
  \<open>add_child\<close>: anything but the recursion error of the \<open>terminal\<close> setter) the state is the
  state before the call.
\<close>

theorem no_partial_failure:
  "(add_child fuel h self child pos = (Raised x, h') \<and> x \<noteq> RecursionError \<longrightarrow> h' = h)
   \<and> (scroll_to hs s p = (Raised y, hs') \<longrightarrow> hs' = hs)
   \<and> (switch_to_image w image_id = (Raised z, w') \<longrightarrow> w' = w)"
  using add_child_raise_unchanged scroll_to_raise_unchanged switch_to_image_raise_unchanged
  by blast

lemma demo_add_twice:
  "add_child recursion_limit demo_one_child 20 1 (0, 0) = (Raised BearLayoutException, demo_one_child)"
  unfolding demo_one_child_world
  by (simp add: add_child_def world_defs)


lemma set_terminal_leaf:
  assumes "objs h w = Some ob" "\<not> is_Layout (cls ob)" "0 < n"
  shows "set_terminal n h w v = (Returned (), h\<lparr>objs := (objs h)(w \<mapsto> ob\<lparr>terminal := v\<rparr>)\<rparr>)"
  using assms by (cases n) simp_all

lemma Layout_init_eq:
  assumes "arrays h arr = Some a" "0 < fuel"
  shows "Layout_init fuel h c arr t = (Returned (next_id h), fresh_layout h c arr t)"
proof -
  from assms(2) obtain n where n: "fuel = Suc n" by (cases fuel) auto
  show ?thesis
    unfolding n using assms(1)
    apply (simp add: Layout_init_def new_object_def add_child_def array_of_def Let_def
      upd_obj_def is_Widget_def is_Layout_def Widget_init_def fresh_layout_def)
    done
qed

lemma ScrollableLayout_init_eq:
  assumes "arrays h arr = Some a" "0 < fuel"
  shows "ScrollableLayout_init fuel h arr vpos vsize =
     (if code_viewport_valid a vpos vsize
      then (Returned (next_id h),
            upd_obj (fresh_layout h ScrollableLayoutCls arr None) (next_id h)
              (\<lambda>ob. ob\<lparr>view_pos := vpos, view_size := vsize,
                   chars := map (map char) (cells (getitem_slice a
                      (snd vpos, snd vpos + snd vsize) (fst vpos, fst vpos + fst vsize))),
                   colors := map (map color) (cells (getitem_slice a
                      (snd vpos, snd vpos + snd vsize) (fst vpos, fst vpos + fst vsize)))\<rparr>))
      else (Raised BearLayoutException, fresh_layout h ScrollableLayoutCls arr None))"
proof -
  have arr: "arrays (fresh_layout h ScrollableLayoutCls arr None) arr = Some a"
    using assms(1) by (simp add: fresh_layout_def)
  show ?thesis
    unfolding ScrollableLayout_init_def Layout_init_eq [OF assms]
    using arr
    by (auto simp add: code_viewport_valid_def Let_def ScrollableLayout_rebuild_self_def upd_obj_def
        fresh_layout_def array_of_def Widget_init_def)
qed

lemma ScrollableWidget_init_succeeds_iff:
  assumes "arrays h arr = Some a"
  shows "(\<exists>self. fst (ScrollableWidget_init h arr vpos vsize) = Returned self)
           \<longleftrightarrow> spec_viewport_valid (int (shape0 a)) (int (shape1 a)) vpos vsize"
    and "fst (ScrollableWidget_init h arr vpos vsize) \<noteq> Raised BearLayoutException
           \<longleftrightarrow> spec_viewport_valid (int (shape0 a)) (int (shape1 a)) vpos vsize"
  using assms
  by (auto simp add: ScrollableWidget_init_def spec_viewport_valid_def Let_def new_array_def
      new_object_def split: prod.splits)

lemma ScrollableLayout_init_succeeds_iff:
  assumes "arrays h arr = Some a" "0 < fuel"
  shows "(\<exists>self. fst (ScrollableLayout_init fuel h arr vpos vsize) = Returned self)
           \<longleftrightarrow> spec_viewport_valid (int (shape1 a)) (int (shape0 a)) vpos vsize
                 \<and> fst vsize \<le> int (shape0 a) \<and> snd vsize \<le> int (shape1 a)"
  unfolding ScrollableLayout_init_eq [OF assms]
  by (auto simp add: code_viewport_valid_def spec_viewport_valid_def)

section \<open>Scrolling, viewports and switching\<close>

lemma demo_switch_unknown:
  "switch_to_image demo_switching ''blink'' = (Raised BearException, demo_switching)"
  by (simp add: switch_to_image_def demo_switching_def)

lemma demo_scrollable_init_eq:
  "demo_scrollable_init =
     (Returned 20,
      upd_obj (fresh_layout (one_array (blank_array 20 20)) ScrollableLayoutCls 10 None) 20
        (\<lambda>ob. ob\<lparr>view_pos := (0, 0), view_size := (5, 5),
             chars := map (map char) (cells (getitem_slice (blank_array 20 20) (0, 5) (0, 5))),
             colors := map (map color) (cells (getitem_slice (blank_array 20 20) (0, 5) (0, 5)))\<rparr>))"
proof -
  have a: "arrays (one_array (blank_array 20 20)) 10 = Some (blank_array 20 20)"
    by (simp add: one_array_def)
  have f: "0 < recursion_limit" by (simp add: recursion_limit_def)
  show ?thesis
    unfolding demo_scrollable_init_def ScrollableLayout_init_eq [OF a f]
    by (simp add: code_viewport_valid_def blank_array_def one_array_def)
qed

lemma demo_scrollable_object:
  "\<exists>so. objs demo_scrollable 20 = Some so \<and> child_pointers so = None
       \<and> view_pos so = (0, 0) \<and> view_size so = (5, 5) \<and> cls so = ScrollableLayoutCls"
  unfolding demo_scrollable_def demo_scrollable_init_eq
  by (simp add: upd_obj_def fresh_layout_def one_array_def Widget_init_def)

lemma scroll_to_without_pointers:
  assumes "objs h self = Some so" "child_pointers so = None" "0 \<le> x"
  shows "scroll_to h self [x, y] = (Raised AttributeError, h)"
  using assms by (simp add: scroll_to_def)

lemma scroll_to_negative:
  assumes "objs h self = Some so" "x < 0"
  shows "scroll_to h self [x, y] = (Raised BearLayoutException, h)"
  using assms by (simp add: scroll_to_def)

lemma scroll_to_with_pointers:
  assumes "objs h self = Some so" "child_pointers so = Some cp" "cp \<noteq> []"
  shows "scroll_to h self [x, y] =
     (if 0 \<le> x \<and> x \<le> int (length (hd cp)) - fst (view_size so)
         \<and> 0 \<le> y \<and> y \<le> int (length cp) - snd (view_size so)
      then (Returned (), upd_obj h self (\<lambda>ob. ob\<lparr>view_pos := (x, y)\<rparr>))
      else (Raised BearLayoutException, h))"
  using assms by (cases cp) (auto simp add: scroll_to_def)

text \<open>
  Claim C3 at the viewport of the specification's scenario (backing 20 by 20, view 5 by 5
  at \<open>(0, 0)\<close>): \<open>scroll_to\<close> reads \<open>self._child_pointers\<close>, an attribute that no constructor
  assigns, so for the positions \<open>(0, 0)\<close> and \<open>(15, 15)\<close>, which the claim says are accepted,
  the call raises \<open>AttributeError\<close>.
\<close>

theorem scroll_to_raises_attribute_error:
  "fst demo_scrollable_init = Returned 20
   \<and> map_option child_pointers (objs demo_scrollable 20) = Some None
   \<and> scroll_to demo_scrollable 20 [0, 0] = (Raised AttributeError, demo_scrollable)
   \<and> scroll_to demo_scrollable 20 [15, 15] = (Raised AttributeError, demo_scrollable)"
proof -
  from demo_scrollable_object obtain so where so: "objs demo_scrollable 20 = Some so"
    and cp: "child_pointers so = None" by blast
  show ?thesis
    using so cp scroll_to_without_pointers [OF so cp, of 0 0]
      scroll_to_without_pointers [OF so cp, of 15 15]
    by (simp add: demo_scrollable_init_eq)
qed

lemma demo_scroll_negative:
  "scroll_to demo_scrollable 20 [- 1, 0] = (Raised BearLayoutException, demo_scrollable)"
proof -
  from demo_scrollable_object obtain so where so: "objs demo_scrollable 20 = Some so" by blast
  show ?thesis by (rule scroll_to_negative [OF so]) simp
qed

theorem no_partial_failure_witness:
  "fst (add_child recursion_limit demo_one_child 20 1 (0, 0)) = Raised BearLayoutException
   \<and> snd (add_child recursion_limit demo_one_child 20 1 (0, 0)) = demo_one_child
   \<and> fst (scroll_to demo_scrollable 20 [- 1, 0]) = Raised BearLayoutException
   \<and> snd (scroll_to demo_scrollable 20 [- 1, 0]) = demo_scrollable
   \<and> fst (switch_to_image demo_switching ''blink'') = Raised BearException
   \<and> snd (switch_to_image demo_switching ''blink'') = demo_switching"
proof -
  have a: "fst (add_child recursion_limit demo_one_child 20 1 (0, 0)) = Raised BearLayoutException"
    by (simp only: demo_add_twice fst_conv)
  have b: "fst (scroll_to demo_scrollable 20 [- 1, 0]) = Raised BearLayoutException"
    by (simp only: demo_scroll_negative fst_conv)
  have c: "fst (switch_to_image demo_switching ''blink'') = Raised BearException"
    by (simp only: demo_switch_unknown fst_conv)
  from no_partial_failure [of recursion_limit demo_one_child 20 1 "(0, 0)" BearLayoutException
      "snd (add_child recursion_limit demo_one_child 20 1 (0, 0))"
      demo_scrollable 20 "[- 1, 0]" BearLayoutException
      "snd (scroll_to demo_scrollable 20 [- 1, 0])"
      demo_switching "''blink''" BearException
      "snd (switch_to_image demo_switching ''blink'')"]
  show ?thesis using a b c by (metis exc.distinct prod.collapse)
qed

text \<open>
  Claim C9 at a backing array of 1 row and 2 columns with a view 2 wide and 1 high at
  \<open>(0, 0)\<close>: the condition of the specification holds (widths against the width 2,
  heights against the height 1), and \<open>ScrollableLayout.__init__\<close> raises, because its second
  test compares the view's width with the number of rows.
\<close>

theorem wide_viewport_rejected:
  "spec_viewport_valid 2 1 (0, 0) (2, 1)
   \<and> fst demo_wide_init = Raised BearLayoutException"
proof -
  have a: "arrays (one_array (blank_array 1 2)) 10 = Some (blank_array 1 2)"
    by (simp add: one_array_def)
  have f: "0 < recursion_limit" by (simp add: recursion_limit_def)
  show ?thesis
    unfolding demo_wide_init_def ScrollableLayout_init_eq [OF a f]
    by (simp add: code_viewport_valid_def spec_viewport_valid_def blank_array_def)
qed

text \<open>
  Claim C2 at a child that is not a Widget (object 4, which has no \<open>tile_array\<close>):
  \<open>add_child\<close> reads \<open>child.tile_array.shape\<close> before it tests \<open>isinstance(child, Widget)\<close>,
  so the call raises \<open>AttributeError\<close>, not \<open>BearLayoutException\<close>.
\<close>

theorem add_child_non_widget_attribute_error:
  "map_option cls (objs demo_with_object 4) = Some ObjectCls
   \<and> add_child recursion_limit demo_with_object 20 4 (0, 0)
       = (Raised AttributeError, demo_with_object)"
  unfolding demo_with_object_def demo_layout_world
  by (simp add: add_child_def world_defs)


text \<open>
  For a child that has a tile array, \<open>add_child\<close> raises \<open>BearLayoutException\<close> exactly in
  the five cases of the claim, and a call that returns has appended the child, recorded
  its position, handed it the layout's terminal, made the layout its parent and set
  \<open>needs_redraw\<close>.
\<close>

lemma add_child_LayoutError_iff:
  assumes "objs h self = Some so" "objs h child = Some co"
      and "array_of h so = Some sa" "array_of h co = Some ca"
  shows "fst (add_child fuel h self child pos) = Raised BearLayoutException \<longleftrightarrow>
           (\<not> is_Widget (cls co) \<or> child \<in> set (children so)
            \<or> shape0 sa < shape0 ca \<or> shape1 sa < shape1 ca
            \<or> int (shape0 ca) + fst pos > int (shape0 sa)
            \<or> int (shape1 ca) + snd pos > int (shape1 sa)
            \<or> child = self)"
proof (cases "\<not> is_Widget (cls co) \<or> child \<in> set (children so)
            \<or> shape0 sa < shape0 ca \<or> shape1 sa < shape1 ca
            \<or> int (shape0 ca) + fst pos > int (shape0 sa)
            \<or> int (shape1 ca) + snd pos > int (shape1 sa)
            \<or> child = self")
  case True
  then show ?thesis using assms by (auto simp add: add_child_def Let_def)
next
  case False
  let ?h2 = "h\<lparr>objs := (objs h)(self \<mapsto>
                  so\<lparr>children := children so @ [child],
                     child_locations := (child_locations so)(child \<mapsto> pos)\<rparr>)\<rparr>"
  from False have eq: "add_child fuel h self child pos =
     (case set_terminal fuel ?h2 child (terminal so) of
        (Raised x, h3) \<Rightarrow> (Raised x, h3)
      | (Returned u, h3) \<Rightarrow>
          (Returned (),
           upd_obj (upd_obj h3 child (\<lambda>ob. ob\<lparr>parent := WidgetParent self\<rparr>))
             self (\<lambda>ob. ob\<lparr>needs_redraw := True\<rparr>)))"
    by (intro add_child_checks_passed [OF assms]) auto
  obtain r h3 where st: "set_terminal fuel ?h2 child (terminal so) = (r, h3)"
    by (cases "set_terminal fuel ?h2 child (terminal so)")
  have "fst (add_child fuel h self child pos) \<noteq> Raised BearLayoutException"
    unfolding eq st using set_terminal_raises_only_RecursionError [of fuel ?h2 child "terminal so"] st
    by (cases r) auto
  with False show ?thesis by blast
qed

lemma add_child_success:
  assumes "add_child fuel h self child pos = (Returned (), h')" "objs h self = Some so"
  shows "\<exists>so' co'. objs h' self = Some so' \<and> children so' = children so @ [child]
           \<and> child_locations so' = (child_locations so)(child \<mapsto> pos)
           \<and> needs_redraw so'
           \<and> objs h' child = Some co' \<and> terminal co' = terminal so
           \<and> parent co' = WidgetParent self
           \<and> arrays h' = arrays h"
proof -
  from assms obtain co sa ca where co: "objs h child = Some co"
    and sa: "array_of h so = Some sa" and ca: "array_of h co = Some ca"
    by (auto simp add: add_child_def split: option.splits)
  have ok: "\<not> (\<not> is_Widget (cls co) \<or> child \<in> set (children so)
            \<or> shape0 sa < shape0 ca \<or> shape1 sa < shape1 ca
            \<or> int (shape0 ca) + fst pos > int (shape0 sa)
            \<or> int (shape1 ca) + snd pos > int (shape1 sa)
            \<or> child = self)"
    using add_child_LayoutError_iff [OF assms(2) co sa ca, of fuel pos] assms(1)
      assms(2) co sa ca
    by (auto simp add: add_child_def Let_def)
  let ?so2 = "so\<lparr>children := children so @ [child],
                     child_locations := (child_locations so)(child \<mapsto> pos)\<rparr>"
  let ?h2 = "h\<lparr>objs := (objs h)(self \<mapsto> ?so2)\<rparr>"
  from ok have eq: "add_child fuel h self child pos =
     (case set_terminal fuel ?h2 child (terminal so) of
        (Raised x, h3) \<Rightarrow> (Raised x, h3)
      | (Returned u, h3) \<Rightarrow>
          (Returned (),
           upd_obj (upd_obj h3 child (\<lambda>ob. ob\<lparr>parent := WidgetParent self\<rparr>))
             self (\<lambda>ob. ob\<lparr>needs_redraw := True\<rparr>)))"
    by (intro add_child_checks_passed [OF assms(2) co sa ca]) auto
  from assms(1) eq obtain h3 where st: "set_terminal fuel ?h2 child (terminal so) = (Returned (), h3)"
    and h': "h' = upd_obj (upd_obj h3 child (\<lambda>ob. ob\<lparr>parent := WidgetParent self\<rparr>))
             self (\<lambda>ob. ob\<lparr>needs_redraw := True\<rparr>)"
    by (auto split: prod.splits outcome.splits)
  from ok have ne: "child \<noteq> self" by simp
  have c2: "objs ?h2 child = Some co" using co ne by simp
  have c3: "objs h3 child = Some (co\<lparr>terminal := terminal so\<rparr>)"
    by (rule set_terminal_returned_sets [OF st c2])
  have t: "terminal_only (terminal so) ?h2 h3"
    using set_terminal_effect [of "terminal so" ?h2 fuel child] st by simp
  from terminal_onlyD [OF t, of self]
  have s3: "objs h3 self = Some ?so2 \<or> objs h3 self = Some (?so2\<lparr>terminal := terminal so\<rparr>)"
    by auto
  have arr: "arrays h3 = arrays h" using t by (simp add: terminal_only_def)
  from s3 show ?thesis
    unfolding h' using c3 ne arr
    by (auto simp add: upd_obj_def)
qed

section \<open>Menu navigation: the highlight stays in range\<close>

lemma navigable_iff:
  "list_all P (butlast (tl cs)) \<longleftrightarrow> (\<forall>k. 1 \<le> k \<and> k + 1 < length cs \<longrightarrow> P (cs ! k))"
proof
  assume a: "list_all P (butlast (tl cs))"
  show "\<forall>k. 1 \<le> k \<and> k + 1 < length cs \<longrightarrow> P (cs ! k)"
  proof (intro allI impI)
    fix k assume k: "1 \<le> k \<and> k + 1 < length cs"
    then have n: "k - 1 < length (butlast (tl cs))" by simp linarith
    have "butlast (tl cs) ! (k - 1) = cs ! k" using n k by (simp add: nth_butlast nth_tl)
    moreover have "P (butlast (tl cs) ! (k - 1))" using a n by (simp add: list_all_length)
    ultimately show "P (cs ! k)" by simp
  qed
next
  assume a: "\<forall>k. 1 \<le> k \<and> k + 1 < length cs \<longrightarrow> P (cs ! k)"
  show "list_all P (butlast (tl cs))"
    unfolding list_all_length
  proof (intro allI impI)
    fix n assume n: "n < length (butlast (tl cs))"
    then have "butlast (tl cs) ! n = cs ! (n + 1)" by (simp add: nth_butlast nth_tl)
    moreover have "P (cs ! (n + 1))" using a n by simp
    ultimately show "P (butlast (tl cs) ! n)" by simp
  qed
qed

lemma navigable_is_item:
  assumes "list_all is_MenuItem (butlast (tl cs))" "1 \<le> i" "i \<le> int (length cs) - 2"
  shows "py_index (length cs) i = Some (nat i)" "is_MenuItem (cs ! nat i)"
proof -
  show "py_index (length cs) i = Some (nat i)" using assms(2,3) by (simp add: py_index_def)
  have "1 \<le> nat i \<and> nat i + 1 < length cs" using assms(2,3) by linarith
  with assms(1) show "is_MenuItem (cs ! nat i)" by (simp add: navigable_iff)
qed

lemma navigable_update:
  assumes "list_all is_MenuItem (butlast (tl cs))"
  shows "list_all is_MenuItem (butlast (tl (cs[k := MenuItem b act])))"
  unfolding navigable_iff
proof (intro allI impI)
  fix n assume n: "1 \<le> n \<and> n + 1 < length (cs[k := MenuItem b act])"
  then have "is_MenuItem (cs ! n)" using assms by (simp add: navigable_iff)
  then show "is_MenuItem (cs[k := MenuItem b act] ! n)"
    using n by (cases "n = k") (simp_all add: is_MenuItem_def)
qed

lemma set_highlighted_ok:
  assumes "list_all is_MenuItem (butlast (tl (menu_children m)))"
      and "1 \<le> i" "i \<le> int (length (menu_children m)) - 2"
  shows "\<exists>m'. set_highlighted m i b = (Returned (), m')
           \<and> list_all is_MenuItem (butlast (tl (menu_children m')))
           \<and> length (menu_children m') = length (menu_children m)
           \<and> current_highlight m' = current_highlight m
           \<and> current_delay m' = current_delay m \<and> input_delay m' = input_delay m"
proof -
  from navigable_is_item [OF assms]
  have p: "py_index (length (menu_children m)) i = Some (nat i)"
    and it: "is_MenuItem (menu_children m ! nat i)" by simp_all
  from it obtain hl act where c: "menu_children m ! nat i = MenuItem hl act"
    by (cases "menu_children m ! nat i") (simp_all add: is_MenuItem_def)
  show ?thesis
    using p c navigable_update [OF assms(1)]
    by (simp add: set_highlighted_def)
qed

lemma set_current_highlight_ok:
  assumes "menu_ok m" "1 \<le> v" "v \<le> int (length (menu_children m)) - 2"
  shows "\<exists>m'. set_current_highlight m v = (Returned (), m')
           \<and> current_highlight m' = v
           \<and> list_all is_MenuItem (butlast (tl (menu_children m')))
           \<and> length (menu_children m') = length (menu_children m)
           \<and> current_delay m' = current_delay m \<and> input_delay m' = input_delay m"
proof -
  from assms(1) have nav: "list_all is_MenuItem (butlast (tl (menu_children m)))"
    and lo: "1 \<le> current_highlight m"
    and hi: "current_highlight m \<le> int (length (menu_children m)) - 2"
    by (simp_all add: menu_ok_def)
  from set_highlighted_ok [OF nav lo hi, of False]
  obtain m1 where s1: "set_highlighted m (current_highlight m) False = (Returned (), m1)"
    and nav1: "list_all is_MenuItem (butlast (tl (menu_children m1)))"
    and len1: "length (menu_children m1) = length (menu_children m)"
    and d1: "current_delay m1 = current_delay m" "input_delay m1 = input_delay m"
    by blast
  let ?m2 = "m1\<lparr>current_highlight := v\<rparr>"
  have nav2: "list_all is_MenuItem (butlast (tl (menu_children ?m2)))" using nav1 by simp
  have hi2: "v \<le> int (length (menu_children ?m2)) - 2" using assms(3) len1 by simp
  from set_highlighted_ok [OF nav2 assms(2) hi2, of True]
  obtain m3 where s3: "set_highlighted ?m2 v True = (Returned (), m3)"
    and nav3: "list_all is_MenuItem (butlast (tl (menu_children m3)))"
    and len3: "length (menu_children m3) = length (menu_children ?m2)"
    and h3: "current_highlight m3 = current_highlight ?m2"
    and d3: "current_delay m3 = current_delay ?m2" "input_delay m3 = input_delay ?m2"
    by blast
  show ?thesis
    using assms(2,3) s1 s3 nav3 len3 len1 h3 d1 d3
    by (simp add: set_current_highlight_def Let_def)
qed


lemma activate_ok:
  assumes "menu_ok m"
  shows "\<exists>r. activate m (current_highlight m) = Returned r"
proof -
  from assms have nav: "list_all is_MenuItem (butlast (tl (menu_children m)))"
    and lo: "1 \<le> current_highlight m"
    and hi: "current_highlight m \<le> int (length (menu_children m)) - 2"
    by (simp_all add: menu_ok_def)
  from navigable_is_item [OF nav lo hi]
  have p: "py_index (length (menu_children m)) (current_highlight m) = Some (nat (current_highlight m))"
    and it: "is_MenuItem (menu_children m ! nat (current_highlight m))" by simp_all
  from it obtain hl act where "menu_children m ! nat (current_highlight m) = MenuItem hl act"
    by (cases "menu_children m ! nat (current_highlight m)") (simp_all add: is_MenuItem_def)
  with p show ?thesis by (simp add: activate_def)
qed

lemma menu_ok_delay [simp]: "menu_ok (m\<lparr>current_delay := d\<rparr>) = menu_ok m"
  by (simp add: menu_ok_def)

lemma menu_ok_redraw [simp]: "menu_ok (m\<lparr>menu_needs_redraw := b\<rparr>) = menu_ok m"
  by (simp add: menu_ok_def)

lemma menu_down_accepted:
  assumes "menu_ok m" "current_delay m \<ge> input_delay m" "k = ''TK_DOWN'' \<or> k = ''TK_S''"
  shows "\<exists>r m'. MenuWidget_on_event m (key_down k) p = (Returned r, m')
           \<and> current_highlight m' =
               (if current_highlight m = int (length (menu_children m)) - 2
                then current_highlight m else current_highlight m + 1)
           \<and> list_all is_MenuItem (butlast (tl (menu_children m')))
           \<and> length (menu_children m') = length (menu_children m)"
proof (cases "current_highlight m < int (length (menu_children m)) - 2")
  case True
  let ?m1 = "m\<lparr>current_delay := 0\<rparr>"
  have ok1: "menu_ok ?m1" using assms(1) by simp
  have lo: "1 \<le> current_highlight ?m1 + 1" using assms(1) by (simp add: menu_ok_def)
  have hi: "current_highlight ?m1 + 1 \<le> int (length (menu_children ?m1)) - 2" using True by simp
  from set_current_highlight_ok [OF ok1 lo hi]
  obtain m2 where "set_current_highlight ?m1 (current_highlight ?m1 + 1) = (Returned (), m2)"
    "current_highlight m2 = current_highlight ?m1 + 1"
    "list_all is_MenuItem (butlast (tl (menu_children m2)))"
    "length (menu_children m2) = length (menu_children ?m1)"
    by blast
  with True assms(2,3) show ?thesis
    by (auto simp add: MenuWidget_on_event_def menu_dispatch_def key_down_def Let_def)
next
  case False
  with assms(1) have "current_highlight m = int (length (menu_children m)) - 2"
    by (simp add: menu_ok_def)
  with assms show ?thesis
    by (auto simp add: MenuWidget_on_event_def menu_dispatch_def key_down_def Let_def menu_ok_def)
qed

lemma menu_up_accepted:
  assumes "menu_ok m" "current_delay m \<ge> input_delay m" "k = ''TK_UP'' \<or> k = ''TK_W''"
  shows "\<exists>r m'. MenuWidget_on_event m (key_down k) p = (Returned r, m')
           \<and> current_highlight m' =
               (if current_highlight m = 1 then current_highlight m else current_highlight m - 1)
           \<and> list_all is_MenuItem (butlast (tl (menu_children m')))
           \<and> length (menu_children m') = length (menu_children m)"
proof (cases "current_highlight m > 1")
  case True
  let ?m1 = "m\<lparr>current_delay := 0\<rparr>"
  have ok1: "menu_ok ?m1" using assms(1) by simp
  have lo: "1 \<le> current_highlight ?m1 - 1" using True by simp
  have hi: "current_highlight ?m1 - 1 \<le> int (length (menu_children ?m1)) - 2"
    using assms(1) by (simp add: menu_ok_def)
  from set_current_highlight_ok [OF ok1 lo hi]
  obtain m2 where "set_current_highlight ?m1 (current_highlight ?m1 - 1) = (Returned (), m2)"
    "current_highlight m2 = current_highlight ?m1 - 1"
    "list_all is_MenuItem (butlast (tl (menu_children m2)))"
    "length (menu_children m2) = length (menu_children ?m1)"
    by blast
  with True assms(2,3) show ?thesis
    by (auto simp add: MenuWidget_on_event_def menu_dispatch_def key_down_def Let_def)
next
  case False
  with assms(1) have "current_highlight m = 1" by (simp add: menu_ok_def)
  with assms show ?thesis
    by (auto simp add: MenuWidget_on_event_def menu_dispatch_def key_down_def Let_def menu_ok_def)
qed


lemma key_down_eq:
  "event_type e = ''key_down'' \<Longrightarrow> event_value e = Str k \<Longrightarrow> e = key_down k"
  by (cases e) (simp add: key_down_def)

lemma menu_okI:
  assumes "list_all is_MenuItem (butlast (tl (menu_children m')))"
      and "1 \<le> current_highlight m'"
      and "current_highlight m' \<le> int (length (menu_children m')) - 2"
  shows "menu_ok m'"
  using assms by (simp add: menu_ok_def)

lemma menu_event_preserves:
  assumes "menu_ok m" "is_key_or_tick e"
  shows "\<exists>r m'. MenuWidget_on_event m e p = (Returned r, m') \<and> menu_ok m'
           \<and> length (menu_children m') = length (menu_children m)"
proof -
  let ?acc = "event_type e = ''key_down'' \<and> current_delay m \<ge> input_delay m"
  let ?down = "event_value e = Str ''TK_DOWN'' \<or> event_value e = Str ''TK_S''"
  let ?up = "event_value e = Str ''TK_UP'' \<or> event_value e = Str ''TK_W''"
  from assms(1) have lo: "1 \<le> current_highlight m"
    and hi: "current_highlight m \<le> int (length (menu_children m)) - 2"
    by (simp_all add: menu_ok_def)
  consider (down) "?acc" "?down" | (up) "?acc" "?up" | (other) "\<not> (?acc \<and> (?down \<or> ?up))"
    by blast
  then show ?thesis
  proof cases
    case down
    then obtain k where k: "k = ''TK_DOWN'' \<or> k = ''TK_S''" and e: "e = key_down k"
      using key_down_eq by blast
    from menu_down_accepted [OF assms(1) _ k, of p] down(1)
    obtain r m' where r: "MenuWidget_on_event m (key_down k) p = (Returned r, m')"
      and h: "current_highlight m' =
               (if current_highlight m = int (length (menu_children m)) - 2
                then current_highlight m else current_highlight m + 1)"
      and nav: "list_all is_MenuItem (butlast (tl (menu_children m')))"
      and len: "length (menu_children m') = length (menu_children m)"
      by blast
    have "menu_ok m'" by (rule menu_okI [OF nav]) (use h lo hi len in \<open>auto\<close>)
    with r len e show ?thesis by blast
  next
    case up
    then obtain k where k: "k = ''TK_UP'' \<or> k = ''TK_W''" and e: "e = key_down k"
      using key_down_eq by blast
    from menu_up_accepted [OF assms(1) _ k, of p] up(1)
    obtain r m' where r: "MenuWidget_on_event m (key_down k) p = (Returned r, m')"
      and h: "current_highlight m' =
               (if current_highlight m = 1 then current_highlight m else current_highlight m - 1)"
      and nav: "list_all is_MenuItem (butlast (tl (menu_children m')))"
      and len: "length (menu_children m') = length (menu_children m)"
      by blast
    have "menu_ok m'" by (rule menu_okI [OF nav]) (use h lo hi len in \<open>auto\<close>)
    with r len e show ?thesis by blast
  next
    case other
    have ev: "MenuWidget_on_event m e p =
        (case menu_dispatch m e p of
           (Raised x, m1) \<Rightarrow> (Raised x, m1)
         | (Returned (r, have_switched, have_activated), m1) \<Rightarrow>
             (Returned (r @ sound_events (switch_sound m1) have_switched
                          @ sound_events (activation_sound m1) have_activated),
              if event_type e = ''service'' \<and> event_value e = Str ''tick_over''
                 \<and> menu_needs_redraw m1
              then m1\<lparr>menu_needs_redraw := False\<rparr> else m1))"
      by (simp add: MenuWidget_on_event_def Let_def split: prod.splits outcome.splits)
    have "\<exists>res m1. menu_dispatch m e p = (Returned res, m1) \<and> menu_ok m1
            \<and> length (menu_children m1) = length (menu_children m)"
    proof (cases "event_type e = ''key_down''")
      case True
      show ?thesis
      proof (cases "current_delay m \<ge> input_delay m")
        case acc: True
        with other True have nud: "\<not> ?down" "\<not> ?up" by simp_all
        show ?thesis
        proof (cases "event_value e = Str ''TK_SPACE'' \<or> event_value e = Str ''TK_ENTER''")
          case sp: True
          from activate_ok [of "m\<lparr>current_delay := 0\<rparr>"] assms(1)
          obtain r where "activate (m\<lparr>current_delay := 0\<rparr>) (current_highlight m) = Returned r"
            by auto
          with True acc sp assms(1) show ?thesis
            by (simp add: menu_dispatch_def Let_def; blast)
        next
          case False
          with True acc nud assms(1) show ?thesis
            by (simp add: menu_dispatch_def Let_def; blast)
        qed
      next
        case False
        with True assms(1) show ?thesis by (simp add: menu_dispatch_def; blast)
      qed
    next
      case nk: False
      show ?thesis
      proof (cases "event_type e = ''tick''")
        case True
        with assms(2) obtain v where v: "event_value e = Num v"
          by (auto simp add: is_key_or_tick_def split: event_value.splits)
        with True assms(1) show ?thesis by (simp add: menu_dispatch_def; blast)
      next
        case False
        with nk assms(2) have "event_type e = ''key_up''" by (simp add: is_key_or_tick_def)
        with assms(1) show ?thesis by (simp add: menu_dispatch_def; blast)
      qed
    qed
    then obtain res m1 where d: "menu_dispatch m e p = (Returned res, m1)"
      and ok1: "menu_ok m1" and len1: "length (menu_children m1) = length (menu_children m)"
      by blast
    obtain r hs ha where res: "res = (r, hs, ha)" by (cases res)
    show ?thesis
      unfolding ev d res using ok1 len1 by simp
  qed
qed

lemma menu_run_preserves:
  assumes "menu_ok m" "list_all (\<lambda>e. is_key_or_tick (fst e)) es"
  shows "\<exists>m'. menu_run m es = (Returned (), m') \<and> menu_ok m'
           \<and> length (menu_children m') = length (menu_children m)"
  using assms
proof (induction es arbitrary: m)
  case Nil
  then show ?case by simp
next
  case (Cons e es)
  from menu_event_preserves [of m "fst e" "snd e"] Cons.prems
  obtain r m1 where r: "MenuWidget_on_event m (fst e) (snd e) = (Returned r, m1)"
    and ok: "menu_ok m1" and len: "length (menu_children m1) = length (menu_children m)"
    by auto
  from Cons.IH [OF ok] Cons.prems(2)
  obtain m' where "menu_run m1 es = (Returned (), m')" "menu_ok m'"
    "length (menu_children m') = length (menu_children m1)"
    by auto
  with r len show ?case by simp
qed

text \<open>
  Claim C7. In a menu whose navigable children (indices 1 to N-2) are \<open>MenuItem\<close>s and
  whose highlight is one of these indices, an accepted key-down event (one that arrives
  with \<open>current_delay\<close> at or above \<open>input_delay\<close>) of Down or S moves the highlight up by one
  unless it is N-2, one of Up or W moves it down by one unless it is 1, and after any
  sequence of key events and ticks the handler has returned every time and the highlight
  is still between 1 and N-2.
\<close>

theorem menu_highlight_stays_navigable:
  assumes "menu_ok m"
  shows "(current_delay m \<ge> input_delay m \<and> (k = ''TK_DOWN'' \<or> k = ''TK_S'') \<longrightarrow>
            (\<exists>r m'. MenuWidget_on_event m (key_down k) p = (Returned r, m')
               \<and> current_highlight m' =
                   (if current_highlight m = int (length (menu_children m)) - 2
                    then current_highlight m else current_highlight m + 1)))
       \<and> (current_delay m \<ge> input_delay m \<and> (k = ''TK_UP'' \<or> k = ''TK_W'') \<longrightarrow>
            (\<exists>r m'. MenuWidget_on_event m (key_down k) p = (Returned r, m')
               \<and> current_highlight m' =
                   (if current_highlight m = 1
                    then current_highlight m else current_highlight m - 1)))
       \<and> (list_all (\<lambda>e. is_key_or_tick (fst e)) es \<longrightarrow>
            (\<exists>m'. menu_run m es = (Returned (), m')
               \<and> 1 \<le> current_highlight m'
               \<and> current_highlight m' \<le> int (length (menu_children m)) - 2
               \<and> length (menu_children m') = length (menu_children m)))"
proof (intro conjI impI)
  assume "current_delay m \<ge> input_delay m \<and> (k = ''TK_DOWN'' \<or> k = ''TK_S'')"
  with menu_down_accepted [OF assms, of k p]
  show "\<exists>r m'. MenuWidget_on_event m (key_down k) p = (Returned r, m')
               \<and> current_highlight m' =
                   (if current_highlight m = int (length (menu_children m)) - 2
                    then current_highlight m else current_highlight m + 1)"
    by blast
next
  assume "current_delay m \<ge> input_delay m \<and> (k = ''TK_UP'' \<or> k = ''TK_W'')"
  with menu_up_accepted [OF assms, of k p]
  show "\<exists>r m'. MenuWidget_on_event m (key_down k) p = (Returned r, m')
               \<and> current_highlight m' =
                   (if current_highlight m = 1
                    then current_highlight m else current_highlight m - 1)"
    by blast
next
  assume "list_all (\<lambda>e. is_key_or_tick (fst e)) es"
  from menu_run_preserves [OF assms this]
  show "\<exists>m'. menu_run m es = (Returned (), m')
               \<and> 1 \<le> current_highlight m'
               \<and> current_highlight m' \<le> int (length (menu_children m)) - 2
               \<and> length (menu_children m') = length (menu_children m)"
    by (auto simp add: menu_ok_def)
qed


lemmas menu_defs = MenuWidget_on_event_def menu_dispatch_def set_current_highlight_def
  set_highlighted_def py_index_def key_down_def tick_def sound_events_def activate_def Let_def

lemma demo_menu_ok: "menu_ok demo_menu"
  by (simp add: menu_ok_def demo_menu_def is_MenuItem_def)

lemma demo_menu_down:
  "MenuWidget_on_event demo_menu (key_down ''TK_DOWN'') False =
     (Returned [],
      demo_menu\<lparr>menu_children := [OtherChild, MenuItem False [], MenuItem True [],
                                    MenuItem False [], OtherChild],
                current_highlight := 2, current_delay := 0, menu_needs_redraw := True\<rparr>)"
  by (simp add: menu_defs demo_menu_def)

lemma demo_menu_up:
  "MenuWidget_on_event demo_menu (key_down ''TK_UP'') False =
     (Returned [], demo_menu\<lparr>current_delay := 0\<rparr>)"
  by (simp add: menu_defs demo_menu_def)

lemma demo_menu_four_downs:
  "menu_run demo_menu
     [(key_down ''TK_DOWN'', False), (tick (1 / 5), False),
      (key_down ''TK_DOWN'', False), (tick (1 / 5), False),
      (key_down ''TK_DOWN'', False), (tick (1 / 5), False),
      (key_down ''TK_DOWN'', False)] =
     (Returned (),
      demo_menu\<lparr>menu_children := [OtherChild, MenuItem False [], MenuItem False [],
                                    MenuItem True [], OtherChild],
                current_highlight := 3, current_delay := 0, menu_needs_redraw := True\<rparr>)"
  by (simp add: menu_defs demo_menu_def)

theorem menu_highlight_stays_navigable_witness:
  "menu_ok demo_menu \<and> current_delay demo_menu \<ge> input_delay demo_menu
   \<and> current_highlight (snd (MenuWidget_on_event demo_menu (key_down ''TK_DOWN'') False)) = 2
   \<and> current_highlight (snd (MenuWidget_on_event demo_menu (key_down ''TK_UP'') False)) = 1
   \<and> current_highlight
        (snd (menu_run demo_menu
           [(key_down ''TK_DOWN'', False), (tick (1 / 5), False),
            (key_down ''TK_DOWN'', False), (tick (1 / 5), False),
            (key_down ''TK_DOWN'', False), (tick (1 / 5), False),
            (key_down ''TK_DOWN'', False)])) = 3
   \<and> int (length (menu_children demo_menu)) - 2 = 3"
proof -
  note t = menu_highlight_stays_navigable [OF demo_menu_ok, of "''TK_DOWN''" False "[]"]
  have b: "current_delay demo_menu \<ge> input_delay demo_menu" by (simp add: demo_menu_def)
  from t b have "\<exists>r m'. MenuWidget_on_event demo_menu (key_down ''TK_DOWN'') False = (Returned r, m')
      \<and> current_highlight m' =
          (if current_highlight demo_menu = int (length (menu_children demo_menu)) - 2
           then current_highlight demo_menu else current_highlight demo_menu + 1)"
    by simp
  then have c:
    "current_highlight (snd (MenuWidget_on_event demo_menu (key_down ''TK_DOWN'') False)) = 2"
    by (auto simp add: demo_menu_def)
  have d: "current_highlight (snd (MenuWidget_on_event demo_menu (key_down ''TK_UP'') False)) = 1"
    unfolding demo_menu_up by (simp add: demo_menu_def)
  have e: "current_highlight
        (snd (menu_run demo_menu
           [(key_down ''TK_DOWN'', False), (tick (1 / 5), False),
            (key_down ''TK_DOWN'', False), (tick (1 / 5), False),
            (key_down ''TK_DOWN'', False), (tick (1 / 5), False),
            (key_down ''TK_DOWN'', False)])) = 3"
    unfolding demo_menu_four_downs by simp
  have f: "int (length (menu_children demo_menu)) - 2 = 3" by (simp add: demo_menu_def)
  show ?thesis using demo_menu_ok b c d e f by blast
qed

end
